theory Spec2Isabelle
  imports Complex_Main "HOL-Library.Sublist"
begin

section \<open>Python values\<close>

text \<open>
  A Python \<open>str\<close> is a sequence of Unicode code points, so \<open>len\<close> and slicing count
  code points. Literals of the source that are plain ASCII are written with \<open>ascii\<close>;
  the Chinese literals are written as their code points.
\<close>

type_synonym pystr = "nat list"

definition ascii :: "string \<Rightarrow> pystr" where
  "ascii s = map of_char s"

text \<open>
  The characters that \<open>str.strip()\<close> removes: the Unicode whitespace of CPython
  (U+0009..U+000D, U+001C..U+0020, U+0085, U+00A0, U+1680, U+2000..U+200A, U+2028,
  U+2029, U+202F, U+205F, U+3000).
\<close>

definition py_isspace :: "nat \<Rightarrow> bool" where
  "py_isspace c \<longleftrightarrow>
     (9 \<le> c \<and> c \<le> 13) \<or> (28 \<le> c \<and> c \<le> 32) \<or> c = 133 \<or> c = 160 \<or> c = 5760 \<or>
     (8192 \<le> c \<and> c \<le> 8202) \<or> c = 8232 \<or> c = 8233 \<or> c = 8239 \<or> c = 8287 \<or> c = 12288"

definition py_strip :: "pystr \<Rightarrow> pystr" where
  "py_strip s = rev (dropWhile py_isspace (rev (dropWhile py_isspace s)))"

text \<open>\<open>sub in s\<close> on strings: \<open>sub\<close> occurs in \<open>s\<close> as a contiguous run.\<close>

fun py_in :: "pystr \<Rightarrow> pystr \<Rightarrow> bool" where
  "py_in sub [] = (sub = [])"
| "py_in sub (c # cs) = (prefix sub (c # cs) \<or> py_in sub cs)"

text \<open>\<open>sep.join(xs)\<close> for a list of strings.\<close>

fun py_join :: "pystr \<Rightarrow> pystr list \<Rightarrow> pystr" where
  "py_join sep [] = []"
| "py_join sep [x] = x"
| "py_join sep (x # y # ys) = x @ sep @ py_join sep (y # ys)"

text \<open>
  The exceptions the code can meet, by class. \<open>ConnectionError\<close>, \<open>HTTPError\<close> and
  \<open>InvalidJSON\<close> (what \<open>response.json()\<close> raises on a body that is not JSON) belong to
  \<open>requests.exceptions.RequestException\<close>; \<open>JSONDecodeError\<close> is the one
  \<open>json.loads\<close> raises on a text that is not JSON, and the only one that
  \<open>except json.JSONDecodeError\<close> handles; \<open>StoreError\<close> stands for the vector store
  client's exceptions.
\<close>

datatype exn =
    ConnectionError | HTTPError | InvalidJSON
  | JSONDecodeError | UnicodeDecodeError | RecursionError
  | AttributeError | IndexError | KeyError | TypeError | ValueError
  | StoreError
  | OtherException pystr

fun is_JSONDecodeError :: "exn \<Rightarrow> bool" where
  "is_JSONDecodeError JSONDecodeError = True"
| "is_JSONDecodeError _ = False"

fun is_RequestException :: "exn \<Rightarrow> bool" where
  "is_RequestException ConnectionError = True"
| "is_RequestException HTTPError = True"
| "is_RequestException InvalidJSON = True"
| "is_RequestException _ = False"

text \<open>The values of parsed JSON: \<open>None\<close>, booleans, numbers, strings, lists and dicts.\<close>

datatype json =
    JNull | JBool bool | JNum real | JStr pystr
  | JArr "json list" | JObj "(pystr \<times> json) list"

text \<open>Truthiness of a value, as \<open>if embedding\<close> and \<open>if not results\<close> test it.\<close>

fun truthy :: "json \<Rightarrow> bool" where
  "truthy JNull = False"
| "truthy (JBool b) = b"
| "truthy (JNum x) = (x \<noteq> 0)"
| "truthy (JStr s) = (s \<noteq> [])"
| "truthy (JArr xs) = (xs \<noteq> [])"
| "truthy (JObj kvs) = (kvs \<noteq> [])"

text \<open>\<open>v.get(key, default)\<close>: only a dict has \<open>get\<close>.\<close>

fun py_get :: "json \<Rightarrow> pystr \<Rightarrow> json \<Rightarrow> exn + json" where
  "py_get (JObj kvs) k d = Inr (case map_of kvs k of None \<Rightarrow> d | Some v \<Rightarrow> v)"
| "py_get _ k d = Inl AttributeError"

text \<open>\<open>v[0]\<close>: the first element of a list, the first character of a string.\<close>

fun py_index0 :: "json \<Rightarrow> exn + json" where
  "py_index0 (JArr []) = Inl IndexError"
| "py_index0 (JArr (x # xs)) = Inr x"
| "py_index0 (JStr []) = Inl IndexError"
| "py_index0 (JStr (c # cs)) = Inr (JStr [c])"
| "py_index0 (JObj kvs) = Inl KeyError"
| "py_index0 _ = Inl TypeError"

text \<open>\<open>v[key]\<close> with a string key.\<close>

fun py_getitem :: "json \<Rightarrow> pystr \<Rightarrow> exn + json" where
  "py_getitem (JObj kvs) k = (case map_of kvs k of None \<Rightarrow> Inl KeyError | Some v \<Rightarrow> Inr v)"
| "py_getitem _ k = Inl TypeError"

text \<open>\<open>len(v)\<close>.\<close>

fun py_len :: "json \<Rightarrow> exn + nat" where
  "py_len (JStr s) = Inr (length s)"
| "py_len (JArr xs) = Inr (length xs)"
| "py_len (JObj kvs) = Inr (length kvs)"
| "py_len _ = Inl TypeError"

text \<open>\<open>range(start, stop, step)\<close> and the slice \<open>xs[i:j]\<close>.\<close>

definition py_range :: "int \<Rightarrow> int \<Rightarrow> int \<Rightarrow> exn + int list" where
  "py_range start stop step =
     (if step = 0 then Inl ValueError
      else if 0 < step then
        Inr (map (\<lambda>k. start + int k * step)
               [0 ..< (if start < stop then nat ((stop - start - 1) div step + 1) else 0)])
      else
        Inr (map (\<lambda>k. start + int k * step)
               [0 ..< (if stop < start then nat ((start - stop - 1) div (- step) + 1) else 0)]))"

definition slice_bound :: "int \<Rightarrow> nat \<Rightarrow> nat" where
  "slice_bound k n = (if k < 0 then nat (max (k + int n) 0) else min (nat k) n)"

definition py_slice :: "'a list \<Rightarrow> int \<Rightarrow> int \<Rightarrow> 'a list" where
  "py_slice xs i j =
     (let lo = slice_bound i (length xs); hi = slice_bound j (length xs)
      in take (hi - lo) (drop lo xs))"

section \<open>Doc2DB: the chunker of \<open>process_file\<close>\<close>

text \<open>
  \<^verbatim>\<open>segments = [text[i:i + segment_length] for i in range(0, len(text), segment_length)]\<close>
\<close>

definition segments_of :: "pystr \<Rightarrow> int \<Rightarrow> exn + pystr list" where
  "segments_of text segment_length =
     (case py_range 0 (int (length text)) segment_length of
        Inl e \<Rightarrow> Inl e
      | Inr idx \<Rightarrow> Inr (map (\<lambda>i. py_slice text i (i + segment_length)) idx))"

text \<open>\<^verbatim>\<open>if len(segment.strip()) == 0: continue\<close>\<close>

definition is_blank :: "pystr \<Rightarrow> bool" where
  "is_blank segment \<longleftrightarrow> length (py_strip segment) = 0"

section \<open>The external services\<close>

text \<open>
  A line yielded by \<open>Response.iter_lines()\<close>: bytes that decode as UTF-8 to a string
  (the empty line is \<open>Utf8 []\<close>), bytes that do not decode, or the exception the
  iterator raises at this point of the stream.
\<close>

datatype raw_line = Utf8 pystr | NotUtf8 | StreamRaises exn

text \<open>
  What a call of \<open>requests.post\<close> followed by \<open>raise_for_status()\<close> can give:
  \<open>post\<close> raises; the service answers with an error status, on which
  \<open>raise_for_status\<close> raises \<open>HTTPError\<close>; or a response passes, with the lines of its
  body and the value of \<open>response.json()\<close> (\<open>None\<close> when the body is not JSON).
\<close>

datatype http_reply =
    PostRaises exn
  | ErrorStatus
  | Response "raw_line list" "json option"

record search_request =
  sr_data :: "json list"
  sr_metric_type :: pystr
  sr_nprobe :: nat
  sr_limit :: nat

text \<open>
  Every call that leaves the program is appended to a trace. \<open>InsertCall e t ok\<close> is
  \<open>collection.insert([[e], [t]])\<close>; \<open>ok\<close> tells whether it returned.
\<close>

datatype event =
    EmbeddingsCall json
  | CompletionsCall json
  | ChatCall json
  | SearchCall search_request
  | InsertCall json json bool

text \<open>
  The environment of a run. Each service answers a request given the calls made so
  far, so a service may answer the same request differently each time. A search gives
  one list of hits for each query vector; a hit is shown by its \<open>text_segment\<close>, which
  the collection schema declares a string. \<open>has_collection\<close> tells whether
  \<open>connect_to_milvus\<close> left \<open>self.collection\<close> bound; \<open>json_loads\<close> is \<open>json.loads\<close>,
  which returns the parsed value or raises (\<open>JSONDecodeError\<close> on a text that is
  not JSON, \<open>RecursionError\<close> on nesting beyond the recursion limit, \<open>ValueError\<close> on
  an integer with too many digits); \<open>exc_str\<close> is the text of \<open>str(e)\<close>.
\<close>

record world =
  json_loads :: "pystr \<Rightarrow> exn + json"
  exc_str :: "exn \<Rightarrow> pystr"
  has_collection :: bool
  embeddings_api :: "event list \<Rightarrow> json \<Rightarrow> http_reply"
  completions_api :: "event list \<Rightarrow> json \<Rightarrow> http_reply"
  chat_api :: "event list \<Rightarrow> json \<Rightarrow> http_reply"
  search_api :: "event list \<Rightarrow> search_request \<Rightarrow> exn + pystr list list"
  insert_api :: "event list \<Rightarrow> json \<Rightarrow> json \<Rightarrow> exn option"

record valves =
  EMBEDDING_MODEL :: pystr
  LLM_MODEL :: pystr
  PROMPT :: pystr
  SUPERVISION_PROMPT :: pystr

text \<open>\<open>response.raise_for_status()\<close> and then \<open>response.json()\<close>.\<close>

fun reply_json :: "http_reply \<Rightarrow> exn + json" where
  "reply_json (PostRaises e) = Inl e"
| "reply_json ErrorStatus = Inl HTTPError"
| "reply_json (Response ls None) = Inl InvalidJSON"
| "reply_json (Response ls (Some j)) = Inr j"

text \<open>Sequencing of steps that may raise.\<close>

fun py_bind :: "exn + 'a \<Rightarrow> ('a \<Rightarrow> exn + 'b) \<Rightarrow> exn + 'b" where
  "py_bind (Inl e) f = Inl e"
| "py_bind (Inr x) f = f x"

text \<open>\<open>[0.0] * n\<close>\<close>

definition zero_vector :: "nat \<Rightarrow> json" where
  "zero_vector n = JArr (replicate n (JNum 0))"

text \<open>\<open>v.strip()\<close>: only a string has \<open>strip\<close>.\<close>

fun py_strip_value :: "json \<Rightarrow> exn + pystr" where
  "py_strip_value (JStr s) = Inr (py_strip s)"
| "py_strip_value _ = Inl AttributeError"

text \<open>
  \<open>response.json().get("choices", [{}])[0].get("text", "").strip()\<close>: the text of
  the first choice, and then its \<open>strip()\<close>.
\<close>

definition choice_text_value :: "json \<Rightarrow> exn + json" where
  "choice_text_value j =
     py_bind (py_get j (ascii ''choices'') (JArr [JObj []])) (\<lambda>choices.
     py_bind (py_index0 choices) (\<lambda>choice.
     py_get choice (ascii ''text'') (JStr [])))"

definition choice_text :: "json \<Rightarrow> exn + pystr" where
  "choice_text j = py_bind (choice_text_value j) py_strip_value"

text \<open>A dict as the list of its items, in insertion order; \<open>d[k] = v\<close>.\<close>

type_synonym pydict = "(pystr \<times> json) list"

fun dict_set :: "pystr \<Rightarrow> json \<Rightarrow> pydict \<Rightarrow> pydict" where
  "dict_set k v [] = [(k, v)]"
| "dict_set k v ((k', v') # kvs) =
     (if k = k' then (k, v) # kvs else (k', v') # dict_set k v kvs)"

text \<open>\<open>body['messages'].append(m)\<close>\<close>

definition append_message :: "pydict \<Rightarrow> json \<Rightarrow> exn + pydict" where
  "append_message body m =
     (case map_of body (ascii ''messages'') of
        None \<Rightarrow> Inl KeyError
      | Some (JArr ms) \<Rightarrow> Inr (dict_set (ascii ''messages'') (JArr (ms @ [m])) body)
      | Some _ \<Rightarrow> Inl AttributeError)"

text \<open>
  The banner printed when the body names a user:
  \<^verbatim>\<open>if "user" in body: print(f'... {body["user"]["name"]} ({body["user"]["id"]})')\<close>.
  The result is the exception of the two subscripts, if any.
\<close>

definition print_user :: "pydict \<Rightarrow> exn option" where
  "print_user body =
     (case map_of body (ascii ''user'') of
        None \<Rightarrow> None
      | Some u \<Rightarrow>
          (case py_getitem u (ascii ''name'') of
             Inl e \<Rightarrow> Some e
           | Inr _ \<Rightarrow> (case py_getitem u (ascii ''id'') of Inl e \<Rightarrow> Some e | Inr _ \<Rightarrow> None)))"

text \<open>\<open>body['messages']\<close>, when the key is there.\<close>

definition body_messages :: "pydict \<Rightarrow> json option" where
  "body_messages body = map_of body (ascii ''messages'')"

text \<open>The synthesized turn \<open>{"role": "user", "content": combined_message}\<close>.\<close>

definition user_turn :: "pystr \<Rightarrow> json" where
  "user_turn combined_message =
     JObj [(ascii ''role'', JStr (ascii ''user'')), (ascii ''content'', JStr combined_message)]"

text \<open>What \<open>pipe\<close> returns: a string, the line iterator of a response, or parsed JSON.\<close>

datatype pyval = VStr pystr | VLines "raw_line list" | VJson json

text \<open>
  The body of an embedding request, without and with \<open>"output_dim": 1024\<close>, and the
  reading of the reply: \<open>raise_for_status()\<close>, then
  \<open>response.json().get("embedding", [])\<close>.
\<close>

definition embedding_request :: "pystr \<Rightarrow> json \<Rightarrow> json" where
  "embedding_request model text = JObj [(ascii ''model'', JStr model), (ascii ''prompt'', text)]"

definition embedding_request_dim :: "pystr \<Rightarrow> json \<Rightarrow> json" where
  "embedding_request_dim model text =
     JObj [(ascii ''model'', JStr model), (ascii ''prompt'', text),
           (ascii ''output_dim'', JNum 1024)]"

definition reply_embedding :: "http_reply \<Rightarrow> exn + json" where
  "reply_embedding reply =
     py_bind (reply_json reply) (\<lambda>j. py_get j (ascii ''embedding'') (JArr []))"

section \<open>pipelinewithsupervision.py\<close>

text \<open>
  \<^verbatim>\<open>generate_embedding\<close>: the request, the length check against 1024, and the zero
  vector for a wrong length and for every exception.
\<close>

definition sup_generate_embedding ::
  "valves \<Rightarrow> world \<Rightarrow> event list \<Rightarrow> pystr \<Rightarrow> json \<times> event list" where
  "sup_generate_embedding v w h text =
     (let req = embedding_request_dim (EMBEDDING_MODEL v) (JStr text);
          reply = embeddings_api w h req;
          h' = h @ [EmbeddingsCall req]
      in case py_bind (reply_embedding reply) (\<lambda>embedding.
              py_bind (py_len embedding) (\<lambda>n.
              Inr (if n \<noteq> 1024 then zero_vector 1024 else embedding))) of
           Inl e \<Rightarrow> (zero_vector 1024, h')
         | Inr embedding \<Rightarrow> (embedding, h'))"

text \<open>
  \<^verbatim>\<open>retrieve_relevant_information\<close>: the search is inside \<open>try\<close>; an unbound
  \<open>self.collection\<close> raises \<open>AttributeError\<close> there before any call is made.
\<close>

definition sup_retrieve_relevant_information ::
  "valves \<Rightarrow> world \<Rightarrow> event list \<Rightarrow> pystr \<Rightarrow> pystr list \<times> event list" where
  "sup_retrieve_relevant_information v w h user_message =
     (let (user_vector, h1) = sup_generate_embedding v w h user_message
      in if \<not> has_collection w then ([], h1)
         else
           (let req = \<lparr>sr_data = [user_vector], sr_metric_type = ascii ''IP'',
                       sr_nprobe = 10, sr_limit = 10\<rparr>;
                h2 = h1 @ [SearchCall req]
            in case search_api w h1 req of
                 Inl e \<Rightarrow> ([], h2)
               | Inr [] \<Rightarrow> ([], h2)
               | Inr (hits # _) \<Rightarrow> (hits, h2)))"

text \<open>
  The two labels of \<^verbatim>\<open>combine_user_message_with_context\<close>: "this is the user's
  question:" (7 characters) and "this is what you have learned, do not mention in the
  answer that you took it from here:" (25 characters).
\<close>

definition label_user_question :: pystr where
  "label_user_question = [36825, 26159, 29992, 25143, 38382, 39064, 65306]"

definition label_learned_content :: pystr where
  "label_learned_content =
     [36825, 26159, 20320, 23398, 20064, 30340, 20869, 23481, 65292, 22238, 31572, 26102,
      35831, 19981, 35201, 25552, 21450, 20174, 27492, 33719, 21462, 30340, 20449, 24687,
      65306]"

definition sup_combine_user_message_with_context ::
  "valves \<Rightarrow> pystr \<Rightarrow> pystr list \<Rightarrow> pystr" where
  "sup_combine_user_message_with_context v user_message contexts =
     PROMPT v @ [10, 10] @ label_user_question @ [10, 10] @ user_message @ [10, 10]
       @ label_learned_content @ py_join [10] contexts"

text \<open>
  \<^verbatim>\<open>supervise_answer\<close>. The literals of the supervision prompt are "user question:",
  "model answer:" and the closing request to return 'true' or 'false'; the keyword
  looked for in the verdict is the two characters U+7B26 U+5408 ("conforms").
\<close>

definition label_sup_question :: pystr where
  "label_sup_question = [29992, 25143, 38382, 39064, 65306]"

definition label_sup_answer :: pystr where
  "label_sup_answer = [27169, 22411, 22238, 31572, 65306]"

definition sup_request_verdict :: pystr where
  "sup_request_verdict =
     [35831, 21028, 26029, 19978, 36848, 22238, 31572, 26159, 21542, 31526, 21512, 29992,
      25143, 38382, 39064, 30340, 35201, 27714, 65292, 24182, 36820, 22238, 39, 116, 114,
      117, 101, 39, 25110, 39, 102, 97, 108, 115, 101, 39, 44, 36820, 22238, 31034, 20363,
      65306, 8220, 116, 114, 117, 101, 8221, 12290]"

definition keyword_conforms :: pystr where
  "keyword_conforms = [31526, 21512]"

definition supervision_request :: "valves \<Rightarrow> pystr \<Rightarrow> pystr \<Rightarrow> json" where
  "supervision_request v user_message generated_answer =
     JObj [(ascii ''model'', JStr (LLM_MODEL v)),
           (ascii ''prompt'',
            JStr (SUPERVISION_PROMPT v @ [10] @ label_sup_question @ user_message @ [10]
                  @ label_sup_answer @ generated_answer @ [10] @ sup_request_verdict))]"

definition sup_supervise_answer ::
  "valves \<Rightarrow> world \<Rightarrow> event list \<Rightarrow> pystr \<Rightarrow> pystr \<Rightarrow> bool \<times> event list" where
  "sup_supervise_answer v w h user_message generated_answer =
     (let req = supervision_request v user_message generated_answer;
          reply = completions_api w h req;
          h' = h @ [CompletionsCall req]
      in case py_bind (reply_json reply) choice_text of
           Inl e \<Rightarrow> (False, h')
         | Inr result \<Rightarrow> (py_in keyword_conforms result, h'))"

text \<open>
  The stream loop of \<^verbatim>\<open>pipe\<close>. An empty line and a line without the marker are
  passed over; the sentinel ends the loop; a payload on which \<open>json.loads\<close> raises
  \<open>JSONDecodeError\<close> is passed over (\<open>continue\<close>); every other exception, of
  \<open>json.loads\<close> too, leaves the loop.
\<close>

definition delta_content :: "json \<Rightarrow> exn + json" where
  "delta_content chunk =
     py_bind (py_get chunk (ascii ''choices'') (JArr [JObj []])) (\<lambda>choices.
     py_bind (py_index0 choices) (\<lambda>choice.
     py_bind (py_get choice (ascii ''delta'') (JObj [])) (\<lambda>delta.
     py_get delta (ascii ''content'') (JStr []))))"

text \<open>\<open>generated_answer += delta_content\<close>: only a string can be added to a string.\<close>

fun str_add :: "pystr \<Rightarrow> json \<Rightarrow> exn + pystr" where
  "str_add s (JStr t) = Inr (s @ t)"
| "str_add s _ = Inl TypeError"

fun assemble_stream :: "(pystr \<Rightarrow> exn + json) \<Rightarrow> raw_line list \<Rightarrow> pystr \<Rightarrow> exn + pystr" where
  "assemble_stream loads [] generated_answer = Inr generated_answer"
| "assemble_stream loads (StreamRaises e # ls) generated_answer = Inl e"
| "assemble_stream loads (NotUtf8 # ls) generated_answer = Inl UnicodeDecodeError"
| "assemble_stream loads (Utf8 line_str # ls) generated_answer =
     (if line_str = [] then assemble_stream loads ls generated_answer
      else if prefix (ascii ''data: '') line_str then
        (let json_data = drop (length (ascii ''data: '')) line_str
         in if py_strip json_data = ascii ''[DONE]'' then Inr generated_answer
            else
              (case loads json_data of
                 Inl e \<Rightarrow> if is_JSONDecodeError e
                          then assemble_stream loads ls generated_answer else Inl e
               | Inr chunk \<Rightarrow>
                   (case py_bind (delta_content chunk) (str_add generated_answer) of
                      Inl e \<Rightarrow> Inl e
                    | Inr generated_answer' \<Rightarrow> assemble_stream loads ls generated_answer')))
      else assemble_stream loads ls generated_answer)"

text \<open>
  One pass of the \<open>while\<close> loop of \<^verbatim>\<open>pipe\<close>: the generation request with the
  body's items and the model, \<open>raise_for_status\<close>, the stream loop from an empty
  answer, and the supervisor's verdict on the assembled answer.
\<close>

datatype attempt = Raised exn | Approved pystr | Rejected pystr

definition sup_attempt ::
  "valves \<Rightarrow> world \<Rightarrow> event list \<Rightarrow> pystr \<Rightarrow> pydict \<Rightarrow> attempt \<times> event list" where
  "sup_attempt v w h user_message body =
     (let req = JObj (dict_set (ascii ''model'') (JStr (LLM_MODEL v)) body);
          reply = chat_api w h req;
          h1 = h @ [ChatCall req]
      in case reply of
           PostRaises e \<Rightarrow> (Raised e, h1)
         | ErrorStatus \<Rightarrow> (Raised HTTPError, h1)
         | Response ls _ \<Rightarrow>
             (case assemble_stream (json_loads w) ls [] of
                Inl e \<Rightarrow> (Raised e, h1)
              | Inr generated_answer \<Rightarrow>
                  (let (is_valid, h2) =
                         sup_supervise_answer v w h1 user_message generated_answer
                   in if is_valid then (Approved generated_answer, h2)
                      else (Rejected generated_answer, h2))))"

definition max_retries :: nat where
  "max_retries = 5"

text \<open>
  The message returned when the retries are used up: "[I am] learning the relevant
  knowledge, you can go to the official website or contact the staff in charge to get
  the knowledge you need." (37 characters).
\<close>

definition exhausted_message :: pystr where
  "exhausted_message =
     [27491, 22312, 23398, 20064, 30456, 20851, 30693, 35782, 20013, 65292, 24744, 21487,
      20197, 21069, 24448, 23448, 26041, 32593, 31449, 25110, 32852, 31995, 30456, 20851,
      31649, 29702, 20154, 21592, 33719, 21462, 24744, 38656, 35201, 30340, 30693, 35782,
      12290]"

function sup_pipe_loop ::
  "valves \<Rightarrow> world \<Rightarrow> pystr \<Rightarrow> pydict \<Rightarrow> nat \<Rightarrow> event list \<Rightarrow> (exn + pystr) \<times> event list" where
  "sup_pipe_loop v w user_message body retry_count h =
     (if retry_count < max_retries then
        (case sup_attempt v w h user_message body of
           (Raised e, h') \<Rightarrow> (Inl e, h')
         | (Approved generated_answer, h') \<Rightarrow> (Inr generated_answer, h')
         | (Rejected generated_answer, h') \<Rightarrow>
             sup_pipe_loop v w user_message body (retry_count + 1) h')
      else (Inr exhausted_message, h))"
  by pat_completeness auto
termination
  by (relation "measure (\<lambda>(v, w, user_message, body, retry_count, h). max_retries - retry_count)")
     auto

declare sup_pipe_loop.simps [simp del]

text \<open>The prefixes of the two error strings: "request error: " and "other error: ".\<close>

definition prefix_request_error :: pystr where
  "prefix_request_error = [35831, 27714, 20986, 38169, 58, 32]"

definition prefix_other_error :: pystr where
  "prefix_other_error = [20854, 20182, 38169, 35823, 58, 32]"

text \<open>
  The \<open>try\<close> statement of \<^verbatim>\<open>pipe\<close>: the retry loop from \<open>retry_count = 0\<close>, and
  the two handlers that turn an exception into a string.
\<close>

definition error_string :: "world \<Rightarrow> exn \<Rightarrow> pystr" where
  "error_string w e =
     (if is_RequestException e then prefix_request_error else prefix_other_error) @ exc_str w e"

definition sup_pipe_try ::
  "valves \<Rightarrow> world \<Rightarrow> pystr \<Rightarrow> pydict \<Rightarrow> event list \<Rightarrow> pystr \<times> event list" where
  "sup_pipe_try v w user_message body h =
     (case sup_pipe_loop v w user_message body 0 h of
        (Inl e, h') \<Rightarrow> (error_string w e, h')
      | (Inr answer, h') \<Rightarrow> (answer, h'))"

text \<open>
  \<^verbatim>\<open>pipe\<close>. The result is the value returned (\<open>Inr\<close>) or the exception that leaves
  \<open>pipe\<close> (\<open>Inl\<close>), with the caller's body as \<open>pipe\<close> leaves it and the trace. The
  parameters \<open>model_id\<close> and \<open>messages\<close> are not read.
\<close>

definition sup_pipe ::
  "valves \<Rightarrow> world \<Rightarrow> event list \<Rightarrow> pystr \<Rightarrow> pystr \<Rightarrow> json list \<Rightarrow> pydict
     \<Rightarrow> (exn + pyval) \<times> pydict \<times> event list" where
  "sup_pipe v w h user_message model_id messages body =
     (let body1 = dict_set (ascii ''messages'') (JArr []) body;
          (retrieved_contexts, h1) = sup_retrieve_relevant_information v w h user_message;
          combined_message =
            sup_combine_user_message_with_context v user_message retrieved_contexts
      in case append_message body1 (user_turn combined_message) of
           Inl e \<Rightarrow> (Inl e, body1, h1)
         | Inr body2 \<Rightarrow>
             (case print_user body2 of
                Some e \<Rightarrow> (Inl e, body2, h1)
              | None \<Rightarrow>
                  (let (answer, h2) = sup_pipe_try v w user_message body2 h1
                   in (Inr (VStr answer), body2, h2))))"

text \<open>
  The generation calls of a trace, and the trace after \<open>k\<close> passes of the retry loop
  that started at \<open>h\<close>.
\<close>

fun is_chat_call :: "event \<Rightarrow> bool" where
  "is_chat_call (ChatCall req) = True"
| "is_chat_call _ = False"

definition generation_calls :: "event list \<Rightarrow> nat" where
  "generation_calls h = length (filter is_chat_call h)"

definition after_attempts ::
  "valves \<Rightarrow> world \<Rightarrow> pystr \<Rightarrow> pydict \<Rightarrow> nat \<Rightarrow> event list \<Rightarrow> event list" where
  "after_attempts v w user_message body k h =
     ((\<lambda>h'. snd (sup_attempt v w h' user_message body)) ^^ k) h"

definition attempt_outcome ::
  "valves \<Rightarrow> world \<Rightarrow> pystr \<Rightarrow> pydict \<Rightarrow> event list \<Rightarrow> nat \<Rightarrow> attempt" where
  "attempt_outcome v w user_message body h k =
     fst (sup_attempt v w (after_attempts v w user_message body k h) user_message body)"

fun is_rejected :: "attempt \<Rightarrow> bool" where
  "is_rejected (Rejected a) = True"
| "is_rejected _ = False"

subsection \<open>The retry protocol as the specification describes it\<close>

text \<open>
  The specification describes an attempt by its states: \<open>Generating\<close> and
  \<open>Assembling\<close> give the answer assembled from the reply to the generation request,
  \<open>Validating\<close> asks the supervision model about that answer and that user message,
  and the verdict signals approval when the text of its first choice contains the
  keyword. These definitions follow those words and speak of the services only:
  \<open>spec_generated\<close> is the answer of an attempt that starts at trace \<open>h\<close>,
  \<open>spec_approved\<close> the verdict on an answer asked at trace \<open>h\<close>, \<open>spec_trace\<close> the
  trace after \<open>k\<close> attempts and \<open>spec_outcome\<close> the outcome of attempt \<open>k + 1\<close>.
\<close>

definition spec_generated :: "valves \<Rightarrow> world \<Rightarrow> pydict \<Rightarrow> event list \<Rightarrow> exn + pystr" where
  "spec_generated v w b h =
     (case chat_api w h (JObj (dict_set (ascii ''model'') (JStr (LLM_MODEL v)) b)) of
        PostRaises e \<Rightarrow> Inl e
      | ErrorStatus \<Rightarrow> Inl HTTPError
      | Response ls j \<Rightarrow> assemble_stream (json_loads w) ls [])"

definition spec_approved :: "valves \<Rightarrow> world \<Rightarrow> event list \<Rightarrow> pystr \<Rightarrow> pystr \<Rightarrow> bool" where
  "spec_approved v w h user_message answer =
     (case completions_api w h (supervision_request v user_message answer) of
        Response ls (Some j) \<Rightarrow>
          (case choice_text_value j of
             Inr (JStr t) \<Rightarrow> sublist keyword_conforms t
           | _ \<Rightarrow> False)
      | _ \<Rightarrow> False)"

fun spec_trace ::
  "valves \<Rightarrow> world \<Rightarrow> pystr \<Rightarrow> pydict \<Rightarrow> event list \<Rightarrow> nat \<Rightarrow> event list" where
  "spec_trace v w user_message b h 0 = h"
| "spec_trace v w user_message b h (Suc k) =
     (let hk = spec_trace v w user_message b h k;
          generation = ChatCall (JObj (dict_set (ascii ''model'') (JStr (LLM_MODEL v)) b))
      in case spec_generated v w b hk of
           Inl e \<Rightarrow> hk @ [generation]
         | Inr answer \<Rightarrow>
             hk @ [generation, CompletionsCall (supervision_request v user_message answer)])"

definition spec_outcome ::
  "valves \<Rightarrow> world \<Rightarrow> pystr \<Rightarrow> pydict \<Rightarrow> event list \<Rightarrow> nat \<Rightarrow> attempt" where
  "spec_outcome v w user_message b h k =
     (let hk = spec_trace v w user_message b h k;
          generation = ChatCall (JObj (dict_set (ascii ''model'') (JStr (LLM_MODEL v)) b))
      in case spec_generated v w b hk of
           Inl e \<Rightarrow> Raised e
         | Inr answer \<Rightarrow>
             if spec_approved v w (hk @ [generation]) user_message answer
             then Approved answer else Rejected answer)"

subsection \<open>The stream as the specification describes it\<close>

text \<open>
  The specification speaks of frames: a frame is a line that starts with the marker
  \<open>data: \<close>, its payload is the rest of the line, the sentinel is the frame whose
  payload is \<open>[DONE]\<close> up to surrounding whitespace, and the fragment of a frame is
  the string at \<open>choices[0].delta.content\<close> of its parsed payload. These definitions
  follow those words; the theorems compare them with \<open>assemble_stream\<close>.
\<close>

definition data_payload :: "raw_line \<Rightarrow> pystr option" where
  "data_payload l =
     (case l of
        Utf8 s \<Rightarrow> if prefix (ascii ''data: '') s
                  then Some (drop (length (ascii ''data: '')) s) else None
      | _ \<Rightarrow> None)"

definition is_sentinel :: "raw_line \<Rightarrow> bool" where
  "is_sentinel l =
     (case data_payload l of Some p \<Rightarrow> py_strip p = ascii ''[DONE]'' | None \<Rightarrow> False)"

definition frame_fragment :: "(pystr \<Rightarrow> exn + json) \<Rightarrow> raw_line \<Rightarrow> pystr option" where
  "frame_fragment loads l =
     (case data_payload l of
        None \<Rightarrow> None
      | Some p \<Rightarrow>
          (case loads p of
             Inl e \<Rightarrow> None
           | Inr chunk \<Rightarrow>
               (case delta_content chunk of Inr (JStr t) \<Rightarrow> Some t | _ \<Rightarrow> None)))"

definition spec_assembled :: "(pystr \<Rightarrow> exn + json) \<Rightarrow> raw_line list \<Rightarrow> pystr" where
  "spec_assembled loads ls =
     concat (List.map_filter (frame_fragment loads) (takeWhile (\<lambda>l. \<not> is_sentinel l) ls))"

text \<open>
  The exception with which a line ends the stream loop, if it does: the iterator
  raises, the bytes do not decode, \<open>json.loads\<close> raises something other than
  \<open>JSONDecodeError\<close>, or the payload parses but has no string at
  \<open>choices[0].delta.content\<close>. \<open>first_fault\<close> is the exception of the first such
  line before the sentinel.
\<close>

definition line_fault :: "(pystr \<Rightarrow> exn + json) \<Rightarrow> raw_line \<Rightarrow> exn option" where
  "line_fault loads l =
     (case l of
        StreamRaises e \<Rightarrow> Some e
      | NotUtf8 \<Rightarrow> Some UnicodeDecodeError
      | Utf8 s \<Rightarrow>
          (case data_payload l of
             None \<Rightarrow> None
           | Some p \<Rightarrow>
               (case loads p of
                  Inl e \<Rightarrow> if is_JSONDecodeError e then None else Some e
                | Inr chunk \<Rightarrow>
                    (case py_bind (delta_content chunk) (str_add []) of
                       Inl e \<Rightarrow> Some e
                     | Inr _ \<Rightarrow> None))))"

definition first_fault :: "(pystr \<Rightarrow> exn + json) \<Rightarrow> raw_line list \<Rightarrow> exn option" where
  "first_fault loads ls =
     (case List.map_filter (line_fault loads) (takeWhile (\<lambda>l. \<not> is_sentinel l) ls) of
        [] \<Rightarrow> None
      | e # _ \<Rightarrow> Some e)"

text \<open>The answer that an attempt assembled and showed to the supervisor.\<close>

fun attempt_answer :: "attempt \<Rightarrow> pystr option" where
  "attempt_answer (Raised e) = None"
| "attempt_answer (Approved a) = Some a"
| "attempt_answer (Rejected a) = Some a"

section \<open>RAGpipeline.py\<close>

text \<open>
  \<^verbatim>\<open>generate_embedding\<close>: the value at \<open>embedding\<close> is returned as it is; every
  exception gives \<open>[0.0] * 512\<close>.
\<close>

definition rag_generate_embedding ::
  "valves \<Rightarrow> world \<Rightarrow> event list \<Rightarrow> pystr \<Rightarrow> json \<times> event list" where
  "rag_generate_embedding v w h text =
     (let req = embedding_request (EMBEDDING_MODEL v) (JStr text);
          reply = embeddings_api w h req;
          h' = h @ [EmbeddingsCall req]
      in case reply_embedding reply of
           Inl e \<Rightarrow> (zero_vector 512, h')
         | Inr embedding \<Rightarrow> (embedding, h'))"

text \<open>
  \<^verbatim>\<open>retrieve_relevant_information\<close>: the search and \<open>results[0]\<close> stand outside any
  \<open>try\<close>, so their exceptions leave the function.
\<close>

definition rag_retrieve_relevant_information ::
  "valves \<Rightarrow> world \<Rightarrow> event list \<Rightarrow> pystr \<Rightarrow> (exn + pystr list) \<times> event list" where
  "rag_retrieve_relevant_information v w h user_message =
     (let (user_vector, h1) = rag_generate_embedding v w h user_message;
          req = \<lparr>sr_data = [user_vector], sr_metric_type = ascii ''L2'',
                  sr_nprobe = 10, sr_limit = 5\<rparr>;
          h2 = h1 @ [SearchCall req]
      in case search_api w h1 req of
           Inl e \<Rightarrow> (Inl e, h2)
         | Inr [] \<Rightarrow> (Inl IndexError, h2)
         | Inr (hits # _) \<Rightarrow> (Inr hits, h2))"

definition rag_combine_user_message_with_context ::
  "valves \<Rightarrow> pystr \<Rightarrow> pystr list \<Rightarrow> pystr" where
  "rag_combine_user_message_with_context v user_message contexts =
     PROMPT v @ [10, 10] @ user_message @ [10, 10] @ py_join [10] contexts"

text \<open>
  The \<open>try\<close> statement that ends \<^verbatim>\<open>pipe\<close>, the same text in RAGpipeline.py and
  in pipelinewithHYDE.py: one generation request, \<open>raise_for_status\<close>, then the line
  iterator or the parsed body according to \<open>body["stream"]\<close>; every exception becomes
  the string \<open>Error: \<close> followed by its text.
\<close>

definition pipe_try ::
  "valves \<Rightarrow> world \<Rightarrow> pydict \<Rightarrow> event list \<Rightarrow> pyval \<times> event list" where
  "pipe_try v w body h =
     (let req = JObj (dict_set (ascii ''model'') (JStr (LLM_MODEL v)) body);
          reply = chat_api w h req;
          h' = h @ [ChatCall req];
          r = (case reply of
                 PostRaises e \<Rightarrow> Inl e
               | ErrorStatus \<Rightarrow> Inl HTTPError
               | Response ls j \<Rightarrow>
                   py_bind (py_getitem (JObj body) (ascii ''stream'')) (\<lambda>stream.
                     if truthy stream then Inr (VLines ls)
                     else (case j of None \<Rightarrow> Inl InvalidJSON | Some x \<Rightarrow> Inr (VJson x))))
      in case r of
           Inl e \<Rightarrow> (VStr (ascii ''Error: '' @ exc_str w e), h')
         | Inr val \<Rightarrow> (val, h'))"

definition rag_pipe ::
  "valves \<Rightarrow> world \<Rightarrow> event list \<Rightarrow> pystr \<Rightarrow> pystr \<Rightarrow> json list \<Rightarrow> pydict
     \<Rightarrow> (exn + pyval) \<times> pydict \<times> event list" where
  "rag_pipe v w h user_message model_id messages body =
     (let body1 = dict_set (ascii ''messages'') (JArr []) body
      in case rag_retrieve_relevant_information v w h user_message of
           (Inl e, h1) \<Rightarrow> (Inl e, body1, h1)
         | (Inr retrieved_contexts, h1) \<Rightarrow>
             (let combined_message =
                    rag_combine_user_message_with_context v user_message retrieved_contexts
              in case append_message body1 (user_turn combined_message) of
                   Inl e \<Rightarrow> (Inl e, body1, h1)
                 | Inr body2 \<Rightarrow>
                     (case print_user body2 of
                        Some e \<Rightarrow> (Inl e, body2, h1)
                      | None \<Rightarrow>
                          (let (val, h2) = pipe_try v w body2 h1
                           in (Inr val, body2, h2)))))"

section \<open>pipelinewithHYDE.py\<close>

definition hyde_generate_embedding ::
  "valves \<Rightarrow> world \<Rightarrow> event list \<Rightarrow> pystr \<Rightarrow> json \<times> event list" where
  "hyde_generate_embedding v w h text =
     (let req = embedding_request_dim (EMBEDDING_MODEL v) (JStr text);
          reply = embeddings_api w h req;
          h' = h @ [EmbeddingsCall req]
      in case reply_embedding reply of
           Inl e \<Rightarrow> (zero_vector 1024, h')
         | Inr embedding \<Rightarrow> (embedding, h'))"

text \<open>
  \<^verbatim>\<open>generate_hypothetical_answer\<close>, with no \<open>try\<close>. The prompt starts with
  "generate a hypothetical answer to the following question:" (16 characters) and
  two line feeds.
\<close>

definition hypothetical_answer_instruction :: pystr where
  "hypothetical_answer_instruction =
     [22522, 20110, 20197, 19979, 38382, 39064, 29983, 25104, 19968, 20010, 20551, 35774,
      24615, 22238, 31572, 65306, 10, 10]"

definition hyde_generate_hypothetical_answer ::
  "valves \<Rightarrow> world \<Rightarrow> event list \<Rightarrow> pystr \<Rightarrow> (exn + pystr) \<times> event list" where
  "hyde_generate_hypothetical_answer v w h user_message =
     (let req = JObj [(ascii ''model'', JStr (LLM_MODEL v)),
                      (ascii ''prompt'', JStr (hypothetical_answer_instruction @ user_message))];
          reply = completions_api w h req
      in (py_bind (reply_json reply) choice_text, h @ [CompletionsCall req]))"

text \<open>
  \<^verbatim>\<open>retrieve_relevant_information\<close>: both vectors are sent as \<open>data\<close>, and the
  contexts are read from \<open>results[0]\<close>.
\<close>

definition hyde_retrieve_relevant_information ::
  "valves \<Rightarrow> world \<Rightarrow> event list \<Rightarrow> pystr \<Rightarrow> (exn + pystr list) \<times> event list" where
  "hyde_retrieve_relevant_information v w h user_message =
     (let (user_vector, h1) = hyde_generate_embedding v w h user_message
      in case hyde_generate_hypothetical_answer v w h1 user_message of
           (Inl e, h2) \<Rightarrow> (Inl e, h2)
         | (Inr hypothetical_answer, h2) \<Rightarrow>
             (let (hypothetical_vector, h3) = hyde_generate_embedding v w h2 hypothetical_answer;
                  req = \<lparr>sr_data = [user_vector, hypothetical_vector],
                          sr_metric_type = ascii ''IP'', sr_nprobe = 10, sr_limit = 5\<rparr>;
                  h4 = h3 @ [SearchCall req]
              in case search_api w h3 req of
                   Inl e \<Rightarrow> (Inl e, h4)
                 | Inr [] \<Rightarrow> (Inl IndexError, h4)
                 | Inr (hits # _) \<Rightarrow> (Inr hits, h4)))"

definition hyde_combine_user_message_with_context ::
  "valves \<Rightarrow> pystr \<Rightarrow> pystr list \<Rightarrow> pystr" where
  "hyde_combine_user_message_with_context v user_message contexts =
     PROMPT v @ [10, 10] @ label_user_question @ [10, 10] @ user_message @ [10, 10]
       @ label_learned_content @ py_join [10] contexts"

definition hyde_pipe ::
  "valves \<Rightarrow> world \<Rightarrow> event list \<Rightarrow> pystr \<Rightarrow> pystr \<Rightarrow> json list \<Rightarrow> pydict
     \<Rightarrow> (exn + pyval) \<times> pydict \<times> event list" where
  "hyde_pipe v w h user_message model_id messages body =
     (let body1 = dict_set (ascii ''messages'') (JArr []) body
      in case hyde_retrieve_relevant_information v w h user_message of
           (Inl e, h1) \<Rightarrow> (Inl e, body1, h1)
         | (Inr retrieved_contexts, h1) \<Rightarrow>
             (let combined_message =
                    hyde_combine_user_message_with_context v user_message retrieved_contexts
              in case append_message body1 (user_turn combined_message) of
                   Inl e \<Rightarrow> (Inl e, body1, h1)
                 | Inr body2 \<Rightarrow>
                     (case print_user body2 of
                        Some e \<Rightarrow> (Inl e, body2, h1)
                      | None \<Rightarrow>
                          (let (val, h2) = pipe_try v w body2 h1
                           in (Inr val, body2, h2)))))"

section \<open>Doc2DB.py: ingestion\<close>

text \<open>
  \<^verbatim>\<open>summarize_text_with_llm\<close> with its default model. Only a
  \<open>RequestException\<close> is handled, by returning the text; any other exception leaves
  the function. The value returned on success is whatever stands at
  \<open>choices[0].message.content\<close>.
\<close>

definition doc_summary_request :: "pystr \<Rightarrow> pystr \<Rightarrow> json" where
  "doc_summary_request text prompt =
     JObj [(ascii ''model'', JStr (ascii ''qwen2:72b'')),
           (ascii ''messages'',
            JArr [JObj [(ascii ''role'', JStr (ascii ''system'')),
                        (ascii ''content'', JStr prompt)],
                  JObj [(ascii ''role'', JStr (ascii ''user'')),
                        (ascii ''content'', JStr text)]]),
           (ascii ''stream'', JBool False)]"

text \<open>
  \<open>raise_for_status()\<close>, then
  \<open>response.json().get("choices", [])[0].get("message", {}).get("content", "")\<close>.
\<close>

definition reply_summary :: "http_reply \<Rightarrow> exn + json" where
  "reply_summary response =
     py_bind (reply_json response) (\<lambda>j.
     py_bind (py_get j (ascii ''choices'') (JArr [])) (\<lambda>choices.
     py_bind (py_index0 choices) (\<lambda>choice.
     py_bind (py_get choice (ascii ''message'') (JObj [])) (\<lambda>message.
     py_get message (ascii ''content'') (JStr [])))))"

definition doc_summarize_text_with_llm ::
  "world \<Rightarrow> event list \<Rightarrow> pystr \<Rightarrow> pystr \<Rightarrow> (exn + json) \<times> event list" where
  "doc_summarize_text_with_llm w h text prompt =
     (let json_input = doc_summary_request text prompt;
          response = chat_api w h json_input;
          h' = h @ [ChatCall json_input]
      in case reply_summary response of
           Inl e \<Rightarrow> if is_RequestException e then (Inr (JStr text), h') else (Inl e, h')
         | Inr summarized_text \<Rightarrow> (Inr summarized_text, h'))"

text \<open>
  \<^verbatim>\<open>generate_embedding\<close> with its default model: a \<open>RequestException\<close> gives the
  empty list.
\<close>

definition doc_generate_embedding ::
  "world \<Rightarrow> event list \<Rightarrow> json \<Rightarrow> (exn + json) \<times> event list" where
  "doc_generate_embedding w h text =
     (let json_input =
            embedding_request (ascii ''theepicdev/nomic-embed-text:v1.5-q6_K'') text;
          response = embeddings_api w h json_input;
          h' = h @ [EmbeddingsCall json_input]
      in case reply_embedding response of
           Inl e \<Rightarrow> if is_RequestException e then (Inr (JArr []), h') else (Inl e, h')
         | Inr embedding \<Rightarrow> (Inr embedding, h'))"

text \<open>\<open>isinstance(v, list)\<close>, and \<open>v[:50]\<close>, which only a sequence allows.\<close>

fun is_list :: "json \<Rightarrow> bool" where
  "is_list (JArr xs) = True"
| "is_list _ = False"

fun py_slice_to_50 :: "json \<Rightarrow> exn + json" where
  "py_slice_to_50 (JStr s) = Inr (JStr (py_slice s 0 50))"
| "py_slice_to_50 (JArr xs) = Inr (JArr (py_slice xs 0 50))"
| "py_slice_to_50 _ = Inl TypeError"

text \<open>
  The \<open>for segment in segments\<close> loop of \<^verbatim>\<open>process_file\<close>. The first component
  of the result is the exception that left the loop, if one did. The insertion and
  the log line after it are inside their own \<open>try\<close>, so nothing they raise leaves
  the loop; the log line of the \<open>else\<close> branch is not.
\<close>

fun doc_process_segments ::
  "world \<Rightarrow> pystr \<Rightarrow> pystr list \<Rightarrow> event list \<Rightarrow> exn option \<times> event list" where
  "doc_process_segments w prompt [] h = (None, h)"
| "doc_process_segments w prompt (segment # rest) h =
     (if is_blank segment then doc_process_segments w prompt rest h
      else
        (case doc_summarize_text_with_llm w h segment prompt of
           (Inl e, h1) \<Rightarrow> (Some e, h1)
         | (Inr summarized_segment, h1) \<Rightarrow>
             (case doc_generate_embedding w h1 summarized_segment of
                (Inl e, h2) \<Rightarrow> (Some e, h2)
              | (Inr embedding, h2) \<Rightarrow>
                  if truthy embedding \<and> is_list embedding then
                    doc_process_segments w prompt rest
                      (h2 @ [InsertCall embedding summarized_segment
                               (insert_api w h2 embedding summarized_segment = None)])
                  else
                    (case py_slice_to_50 summarized_segment of
                       Inl e \<Rightarrow> (Some e, h2)
                     | Inr _ \<Rightarrow> doc_process_segments w prompt rest h2))))"

text \<open>
  \<^verbatim>\<open>process_file\<close>. Reading the file is outside the program: it gives a text, or
  raises, or the extension is not supported. \<open>process_file\<close> itself returns nothing
  and raises nothing; the first component is the exception its outer handler logged.
\<close>

datatype extraction = Unsupported | ReadFails exn | Extracted pystr

definition doc_process_file ::
  "world \<Rightarrow> event list \<Rightarrow> extraction \<Rightarrow> int \<Rightarrow> pystr \<Rightarrow> exn option \<times> event list" where
  "doc_process_file w h ext segment_length prompt =
     (case ext of
        Unsupported \<Rightarrow> (None, h)
      | ReadFails e \<Rightarrow> (Some e, h)
      | Extracted text \<Rightarrow>
          (case segments_of text segment_length of
             Inl e \<Rightarrow> (Some e, h)
           | Inr segments \<Rightarrow> doc_process_segments w prompt segments h))"

text \<open>The records that the insertions of a trace stored, in order.\<close>

fun stored_record :: "event \<Rightarrow> (json \<times> json) option" where
  "stored_record (InsertCall e t True) = Some (e, t)"
| "stored_record _ = None"

definition stored_records :: "event list \<Rightarrow> (json \<times> json) list" where
  "stored_records h = List.map_filter stored_record h"

section \<open>Example environments\<close>

text \<open>
  Concrete valves and environments on which the theorems below are run. In
  \<open>silent_world\<close> every service is unreachable and no payload parses.
\<close>

definition example_valves :: valves where
  "example_valves =
     \<lparr>EMBEDDING_MODEL = ascii ''embed'', LLM_MODEL = ascii ''llm'',
      PROMPT = ascii ''persona'', SUPERVISION_PROMPT = ascii ''judge''\<rparr>"

definition silent_world :: world where
  "silent_world =
     \<lparr>json_loads = (\<lambda>s. Inl JSONDecodeError),
      exc_str = (\<lambda>e. []),
      has_collection = True,
      embeddings_api = (\<lambda>h req. PostRaises ConnectionError),
      completions_api = (\<lambda>h req. PostRaises ConnectionError),
      chat_api = (\<lambda>h req. PostRaises ConnectionError),
      search_api = (\<lambda>h req. Inl StoreError),
      insert_api = (\<lambda>h e t. Some StoreError)\<rparr>"

text \<open>A completion whose first choice has the given text.\<close>

definition completion_with :: "pystr \<Rightarrow> http_reply" where
  "completion_with t =
     Response [] (Some (JObj [(ascii ''choices'', JArr [JObj [(ascii ''text'', JStr t)]])]))"

text \<open>
  A stand-in for \<open>json.loads\<close> that parses three payloads: \<open>A\<close> and \<open>B\<close> to chunks
  whose fragments are \<open>Hel\<close> and \<open>lo\<close>, and \<open>N\<close> to a chunk whose content is
  \<open>null\<close>. On the payload of 2000 opening brackets it raises \<open>RecursionError\<close>, as
  \<open>json.loads\<close> does, and on every other payload \<open>JSONDecodeError\<close>.
\<close>

definition chunk_with :: "pystr \<Rightarrow> json" where
  "chunk_with t =
     JObj [(ascii ''choices'',
            JArr [JObj [(ascii ''delta'', JObj [(ascii ''content'', JStr t)])]])]"

definition null_chunk :: json where
  "null_chunk =
     JObj [(ascii ''choices'',
            JArr [JObj [(ascii ''delta'', JObj [(ascii ''content'', JNull)])]])]"

definition deep_payload :: pystr where
  "deep_payload = replicate 2000 91"

definition toy_loads :: "pystr \<Rightarrow> exn + json" where
  "toy_loads s =
     (if length s = 2000 then (if s = deep_payload then Inl RecursionError else Inl JSONDecodeError)
      else if s = ascii ''A'' then Inr (chunk_with (ascii ''Hel''))
      else if s = ascii ''B'' then Inr (chunk_with (ascii ''lo''))
      else if s = ascii ''N'' then Inr null_chunk
      else Inl JSONDecodeError)"

definition toy_stream :: "raw_line list" where
  "toy_stream =
     [Utf8 (ascii ''data: A''), Utf8 [], Utf8 (ascii ''data: {oops''), Utf8 (ascii '': ping''),
      Utf8 (ascii ''data: B''), Utf8 (ascii ''data: [DONE]''), Utf8 (ascii ''data: A'')]"

text \<open>
  An environment in which every generation streams \<open>toy_stream\<close> and the supervisor
  approves only the answer shown to it after the third generation call, and one in
  which the supervisor always answers \<open>true\<close>.
\<close>

definition third_time_world :: world where
  "third_time_world =
     silent_world
       \<lparr>json_loads := toy_loads,
        chat_api := (\<lambda>h req. Response toy_stream None),
        completions_api := (\<lambda>h req. if generation_calls h = 3
                                      then completion_with keyword_conforms
                                      else completion_with (ascii ''true''))\<rparr>"

definition never_world :: world where
  "never_world =
     silent_world
       \<lparr>json_loads := toy_loads,
        chat_api := (\<lambda>h req. Response toy_stream None),
        completions_api := (\<lambda>h req. completion_with (ascii ''true''))\<rparr>"

text \<open>An embedding service that answers with the given value at \<open>embedding\<close>.\<close>

definition embedding_world :: "json \<Rightarrow> world" where
  "embedding_world e =
     silent_world\<lparr>embeddings_api := (\<lambda>h req. Response [] (Some (JObj [(ascii ''embedding'', e)])))\<rparr>"

text \<open>
  An environment for the HyDE pipeline: the model proposes the answer \<open>guess\<close>, the
  embedding of a text is a vector of one number that differs from call to call, the
  search fails in \<open>hyde_failing_world\<close> and answers each of the two query vectors
  with one segment of its own, \<open>A\<close> and \<open>B\<close>, in \<open>hyde_two_hits_world\<close>.
\<close>

definition hyde_failing_world :: world where
  "hyde_failing_world =
     silent_world
       \<lparr>embeddings_api :=
          (\<lambda>h req. Response [] (Some (JObj [(ascii ''embedding'', JArr [JNum (real (length h))])]))),
        completions_api := (\<lambda>h req. completion_with (ascii ''guess''))\<rparr>"

definition hyde_two_hits_world :: world where
  "hyde_two_hits_world =
     hyde_failing_world\<lparr>search_api := (\<lambda>h req. Inr [[ascii ''A''], [ascii ''B'']])\<rparr>"

text \<open>
  An environment for ingestion: the summarizer is unreachable, every text is embedded
  as the vector \<open>[1, 2]\<close>, and the store refuses the first insertion and accepts the
  later ones.
\<close>

fun is_insert_call :: "event \<Rightarrow> bool" where
  "is_insert_call (InsertCall e t ok) = True"
| "is_insert_call _ = False"

definition ingest_world :: world where
  "ingest_world =
     (embedding_world (JArr [JNum 1, JNum 2]))
       \<lparr>insert_api := (\<lambda>h e t. if filter is_insert_call h = [] then Some StoreError else None)\<rparr>"

text \<open>
  An environment in which the summarizer answers every request with status 200 and
  the JSON body \<open>{}\<close>, which has no \<open>choices\<close>; embeddings and insertions work.
\<close>

definition no_choices_world :: world where
  "no_choices_world =
     (embedding_world (JArr [JNum 1, JNum 2]))
       \<lparr>chat_api := (\<lambda>h req. Response [] (Some (JObj []))),
        insert_api := (\<lambda>h e t. None)\<rparr>"

section \<open>Facts about the Python primitives\<close>

lemma all_dropWhile: "(\<forall>x\<in>set (dropWhile P xs). P x) \<longleftrightarrow> (\<forall>x\<in>set xs. P x)"
  by (induction xs) auto

lemma strip_empty_iff: "py_strip s = [] \<longleftrightarrow> (\<forall>c\<in>set s. py_isspace c)"
  by (simp add: py_strip_def all_dropWhile)

lemma is_blank_iff: "is_blank s \<longleftrightarrow> (\<forall>c\<in>set s. py_isspace c)"
  by (simp add: is_blank_def strip_empty_iff)

lemma dropWhile_none: "\<forall>c\<in>set xs. \<not> P c \<Longrightarrow> dropWhile P xs = xs"
  by (cases xs) simp_all

lemma strip_no_space: "\<forall>c\<in>set s. \<not> py_isspace c \<Longrightarrow> py_strip s = s"
proof -
  assume a: "\<forall>c\<in>set s. \<not> py_isspace c"
  then have "\<forall>c\<in>set (rev s). \<not> py_isspace c" by simp
  then have "dropWhile py_isspace (rev s) = rev s" by (rule dropWhile_none)
  moreover have "dropWhile py_isspace s = s" using a by (rule dropWhile_none)
  ultimately show ?thesis by (simp add: py_strip_def)
qed

lemma length_neq: "length xs \<noteq> length ys \<Longrightarrow> xs \<noteq> ys"
  by auto

lemma py_range_pos:
  assumes "0 < L"
  shows "py_range 0 (int n) (int L) = Inr (map (\<lambda>k. int (k * L)) [0 ..< (n + L - 1) div L])"
proof -
  have len: "(if 0 < int n then nat ((int n - 0 - 1) div int L + 1) else 0) = (n + L - 1) div L"
  proof (cases "n = 0")
    case True
    then show ?thesis using assms by simp
  next
    case False
    then obtain m where m: "n = Suc m" by (cases n) auto
    have "(int n - 0 - 1) div int L + 1 = int (m div L + 1)"
      using m by (simp add: zdiv_int)
    moreover have "(n + L - 1) div L = m div L + 1"
      using m assms by (simp add: div_add_self2)
    ultimately show ?thesis using False by simp
  qed
  show ?thesis
    unfolding py_range_def using assms len by simp
qed

lemma py_slice_nonneg:
  "py_slice xs (int i) (int i + int L) = take L (drop i xs)"
  by (auto simp: py_slice_def slice_bound_def Let_def min_def nat_add_distrib)

section \<open>The chunker\<close>

lemma segments_of_pos:
  assumes "0 < L"
  shows "segments_of T (int L) =
           Inr (map (\<lambda>k. take L (drop (k * L) T)) [0 ..< (length T + L - 1) div L])"
  unfolding segments_of_def py_range_pos [OF assms]
  by (simp add: o_def py_slice_nonneg del: of_nat_mult)

lemma concat_slices:
  "length T \<le> m * L \<Longrightarrow> concat (map (\<lambda>k. take L (drop (k * L) T)) [0 ..< m]) = T"
proof (induction m arbitrary: T)
  case 0
  then show ?case by simp
next
  case (Suc m)
  have split: "[0 ..< Suc m] = 0 # map Suc [0 ..< m]"
    by (simp add: upt_conv_Cons map_Suc_upt del: upt_Suc)
  have len: "length (drop L T) \<le> m * L"
    using Suc.prems by simp
  have "concat (map (\<lambda>k. take L (drop (k * L) T)) [0 ..< Suc m]) =
          take L T @ concat (map (\<lambda>k. take L (drop (k * L) (drop L T))) [0 ..< m])"
    unfolding split by (simp add: o_def add.commute del: upt_Suc)
  also have "\<dots> = take L T @ drop L T"
    using Suc.IH [OF len] by simp
  finally show ?case by simp
qed

lemma ceil_div_covers: "0 < L \<Longrightarrow> (n::nat) \<le> ((n + L - 1) div L) * L"
proof -
  assume L: "0 < L"
  have "n + L - 1 = ((n + L - 1) div L) * L + (n + L - 1) mod L" by simp
  moreover have "(n + L - 1) mod L < L" using L by simp
  ultimately show ?thesis by linarith
qed

lemma slice_nonempty:
  assumes "0 < L" "k < (length T + L - 1) div L"
  shows "take L (drop (k * L) T) \<noteq> []"
proof -
  have "k * L < length T"
  proof (rule ccontr)
    assume "\<not> k * L < length T"
    then have "length T + L - 1 < Suc k * L" using assms(1) by simp
    then have "(length T + L - 1) div L < Suc k"
      using assms(1) by (simp add: div_less_iff_less_mult)
    then show False using assms(2) by simp
  qed
  then show ?thesis using assms(1) by simp
qed

section \<open>The supervisor's verdict\<close>

lemma py_in_sublist: "py_in sub s \<longleftrightarrow> sublist sub s"
  by (induction s) (auto simp: sublist_Cons_right)

lemma sublist_dropWhile_iff:
  assumes "k \<noteq> []" "\<not> P (hd k)"
  shows "sublist k (dropWhile P s) \<longleftrightarrow> sublist k s"
proof (induction s)
  case Nil
  then show ?case by simp
next
  case (Cons c cs)
  show ?case
  proof (cases "P c")
    case True
    have "\<not> prefix k (c # cs)"
      using assms True by (cases k) auto
    then show ?thesis using True Cons by (simp add: sublist_Cons_right)
  next
    case False
    then show ?thesis by simp
  qed
qed

lemma sublist_strip_iff:
  assumes "k \<noteq> []" "\<not> py_isspace (hd k)" "\<not> py_isspace (last k)"
  shows "sublist k (py_strip s) \<longleftrightarrow> sublist k s"
proof -
  have r: "rev k \<noteq> []" "\<not> py_isspace (hd (rev k))"
    using assms by (simp_all add: hd_rev)
  have "sublist k (py_strip s) \<longleftrightarrow> sublist (rev k) (dropWhile py_isspace (rev (dropWhile py_isspace s)))"
    unfolding py_strip_def by (simp add: sublist_rev_right)
  also have "\<dots> \<longleftrightarrow> sublist (rev k) (rev (dropWhile py_isspace s))"
    using r by (rule sublist_dropWhile_iff [where P = py_isspace])
  also have "\<dots> \<longleftrightarrow> sublist k (dropWhile py_isspace s)"
    by simp
  also have "\<dots> \<longleftrightarrow> sublist k s"
    using assms(1,2) by (rule sublist_dropWhile_iff [where P = py_isspace])
  finally show ?thesis .
qed

lemma conforms_in_strip: "py_in keyword_conforms (py_strip t) \<longleftrightarrow> sublist keyword_conforms t"
  unfolding py_in_sublist
  by (rule sublist_strip_iff) (simp_all add: keyword_conforms_def py_isspace_def)

lemma supervise_answer_fst:
  "fst (sup_supervise_answer v w h um ans) \<longleftrightarrow>
     (\<exists>result. py_bind (reply_json (completions_api w h (supervision_request v um ans))) choice_text
                 = Inr result \<and> py_in keyword_conforms result)"
  by (simp add: sup_supervise_answer_def Let_def split: sum.splits)

lemma reply_json_Inr: "reply_json r = Inr j \<longleftrightarrow> (\<exists>ls. r = Response ls (Some j))"
  by (cases r rule: reply_json.cases) auto

lemma py_strip_value_Inr: "py_strip_value x = Inr s \<longleftrightarrow> (\<exists>t. x = JStr t \<and> s = py_strip t)"
  by (cases x) auto

lemma py_bind_Inr: "py_bind m f = Inr y \<longleftrightarrow> (\<exists>x. m = Inr x \<and> f x = Inr y)"
  by (cases m) auto

lemma py_bind_Inl: "py_bind m f = Inl e \<longleftrightarrow> m = Inl e \<or> (\<exists>x. m = Inr x \<and> f x = Inl e)"
  by (cases m) auto

section \<open>The stream loop\<close>

lemma str_add_append:
  "py_bind d (str_add acc) = (case py_bind d (str_add []) of Inl e \<Rightarrow> Inl e | Inr t \<Rightarrow> Inr (acc @ t))"
proof (cases d)
  case (Inl e)
  then show ?thesis by simp
next
  case (Inr x)
  then show ?thesis by (cases x) simp_all
qed

lemma str_add_nil_Inr:
  "py_bind d (str_add []) = Inr t \<longleftrightarrow> d = Inr (JStr t)"
proof (cases d)
  case (Inl e)
  then show ?thesis by simp
next
  case (Inr x)
  then show ?thesis by (cases x) auto
qed

lemma assemble_stream_step:
  "assemble_stream loads (l # ls) acc =
     (if is_sentinel l then Inr acc
      else case line_fault loads l of
             Some e \<Rightarrow> Inl e
           | None \<Rightarrow> assemble_stream loads ls
                      (acc @ (case frame_fragment loads l of None \<Rightarrow> [] | Some t \<Rightarrow> t)))"
proof (cases l)
  case (Utf8 s)
  show ?thesis
  proof (cases "prefix (ascii ''data: '') s")
    case False
    then show ?thesis
      using Utf8 by (auto simp: is_sentinel_def data_payload_def line_fault_def frame_fragment_def)
  next
    case True
    then have ne: "s \<noteq> []" by (auto simp: ascii_def)
    let ?p = "drop (length (ascii ''data: '')) s"
    have dp: "data_payload l = Some ?p" using Utf8 True by (simp add: data_payload_def)
    show ?thesis
    proof (cases "py_strip ?p = ascii ''[DONE]''")
      case True
      then show ?thesis using Utf8 \<open>prefix (ascii ''data: '') s\<close> ne dp
        by (simp add: is_sentinel_def Let_def)
    next
      case notdone: False
      show ?thesis
      proof (cases "loads ?p")
        case raised: (Inl x)
        then show ?thesis using Utf8 True ne dp notdone
          by (simp add: is_sentinel_def Let_def line_fault_def frame_fragment_def)
      next
        case parsed: (Inr chunk)
        show ?thesis
        proof (cases "py_bind (delta_content chunk) (str_add [])")
          case (Inl e)
          then have "py_bind (delta_content chunk) (str_add acc) = Inl e"
            by (simp add: str_add_append [of _ acc])
          then show ?thesis using Utf8 True ne dp notdone parsed Inl
            by (simp add: is_sentinel_def Let_def line_fault_def)
        next
          case (Inr t)
          then have a: "py_bind (delta_content chunk) (str_add acc) = Inr (acc @ t)"
            by (simp add: str_add_append [of _ acc])
          have b: "delta_content chunk = Inr (JStr t)"
            using Inr by (simp add: str_add_nil_Inr)
          show ?thesis using Utf8 True ne dp notdone parsed Inr a b
            by (simp add: is_sentinel_def Let_def line_fault_def frame_fragment_def)
        qed
      qed
    qed
  qed
next
  case NotUtf8
  then show ?thesis by (simp add: is_sentinel_def data_payload_def line_fault_def)
next
  case (StreamRaises e)
  then show ?thesis by (simp add: is_sentinel_def data_payload_def line_fault_def)
qed

lemma spec_assembled_Cons:
  "spec_assembled loads (l # ls) =
     (if is_sentinel l then []
      else (case frame_fragment loads l of None \<Rightarrow> [] | Some t \<Rightarrow> t) @ spec_assembled loads ls)"
  by (simp add: spec_assembled_def split: option.splits)

lemma assemble_stream_clean:
  "\<forall>l \<in> set (takeWhile (\<lambda>l. \<not> is_sentinel l) ls). line_fault loads l = None
   \<Longrightarrow> assemble_stream loads ls acc = Inr (acc @ spec_assembled loads ls)"
proof (induction ls arbitrary: acc)
  case Nil
  then show ?case by (simp add: spec_assembled_def)
next
  case (Cons l ls)
  show ?case
  proof (cases "is_sentinel l")
    case True
    then show ?thesis
      by (simp only: assemble_stream_step spec_assembled_Cons if_True append_Nil2)
  next
    case False
    then have nf: "line_fault loads l = None"
      and rest: "\<forall>l \<in> set (takeWhile (\<lambda>l. \<not> is_sentinel l) ls). line_fault loads l = None"
      using Cons.prems by simp_all
    show ?thesis
      using False nf Cons.IH [OF rest]
      by (simp only: assemble_stream_step spec_assembled_Cons if_False option.case append_assoc)
  qed
qed

lemma assemble_stream_skip:
  assumes "\<not> is_sentinel l" "line_fault loads l = None" "frame_fragment loads l = None"
  shows "assemble_stream loads (xs @ l # ys) acc = assemble_stream loads (xs @ ys) acc"
proof (induction xs arbitrary: acc)
  case Nil
  show ?case using assms
    by (simp only: append_Nil assemble_stream_step if_False option.case append_Nil2)
next
  case (Cons x xs)
  show ?case
    by (simp only: append_Cons assemble_stream_step Cons.IH)
qed

lemma unparseable_frame:
  assumes "data_payload l = Some p" "loads p = Inl e" "is_JSONDecodeError e"
  shows "line_fault loads l = None" "frame_fragment loads l = None"
  using assms by (auto simp: line_fault_def frame_fragment_def data_payload_def split: raw_line.splits)

lemma first_fault_Nil: "first_fault loads [] = None"
  by (simp add: first_fault_def)

lemma first_fault_Cons:
  "first_fault loads (l # ls) =
     (if is_sentinel l then None
      else case line_fault loads l of Some e \<Rightarrow> Some e | None \<Rightarrow> first_fault loads ls)"
  by (simp add: first_fault_def split: option.splits)

lemma assemble_stream_faults:
  "assemble_stream loads ls acc =
     (case first_fault loads ls of
        Some e \<Rightarrow> Inl e
      | None \<Rightarrow> Inr (acc @ spec_assembled loads ls))"
proof (induction ls arbitrary: acc)
  case Nil
  then show ?case by (simp add: first_fault_Nil spec_assembled_def)
next
  case (Cons l ls)
  show ?case
  proof (cases "is_sentinel l")
    case True
    then show ?thesis
      by (simp only: assemble_stream_step first_fault_Cons spec_assembled_Cons if_True
            option.case append_Nil2)
  next
    case False
    show ?thesis
    proof (cases "line_fault loads l")
      case None
      then show ?thesis
        using False Cons.IH
        by (simp only: assemble_stream_step first_fault_Cons spec_assembled_Cons if_False
              option.case append_assoc)
    next
      case (Some e)
      then show ?thesis
        using False
        by (simp only: assemble_stream_step first_fault_Cons if_False option.case)
    qed
  qed
qed

lemma first_fault_None:
  "first_fault loads ls = None \<longleftrightarrow>
     (\<forall>l \<in> set (takeWhile (\<lambda>l. \<not> is_sentinel l) ls). line_fault loads l = None)"
proof (induction ls)
  case Nil
  then show ?case by (simp add: first_fault_Nil)
next
  case (Cons l ls)
  then show ?case by (auto simp: first_fault_Cons split: option.splits)
qed

lemma attempt_answer_eq:
  "attempt_answer (fst (sup_attempt v w h um body)) =
     (case chat_api w h (JObj (dict_set (ascii ''model'') (JStr (LLM_MODEL v)) body)) of
        Response ls j \<Rightarrow>
          (case assemble_stream (json_loads w) ls [] of Inl e \<Rightarrow> None | Inr a \<Rightarrow> Some a)
      | _ \<Rightarrow> None)"
  by (simp add: sup_attempt_def Let_def split: http_reply.splits sum.splits prod.splits)

lemma toy_lines:
  "data_payload (Utf8 (ascii ''data: A'')) = Some (ascii ''A'')"
  "data_payload (Utf8 (ascii ''data: B'')) = Some (ascii ''B'')"
  "data_payload (Utf8 (ascii ''data: {oops'')) = Some (ascii ''{oops'')"
  "data_payload (Utf8 (ascii ''data: [DONE]'')) = Some (ascii ''[DONE]'')"
  "data_payload (Utf8 (ascii '': ping'')) = None"
  "data_payload (Utf8 []) = None"
  by (simp_all add: data_payload_def ascii_def)

lemma toy_loads_values:
  "toy_loads (ascii ''A'') = Inr (chunk_with (ascii ''Hel''))"
  "toy_loads (ascii ''B'') = Inr (chunk_with (ascii ''lo''))"
  "toy_loads (ascii ''{oops'') = Inl JSONDecodeError"
  "toy_loads (ascii ''N'') = Inr null_chunk"
  "toy_loads deep_payload = Inl RecursionError"
  by (simp_all add: toy_loads_def ascii_def deep_payload_def)

lemma delta_content_chunk_with: "delta_content (chunk_with t) = Inr (JStr t)"
  by (simp add: delta_content_def chunk_with_def ascii_def)

lemma strip_examples:
  "py_strip (ascii ''A'') \<noteq> ascii ''[DONE]''"
  "py_strip (ascii ''B'') \<noteq> ascii ''[DONE]''"
  "py_strip (ascii ''{oops'') \<noteq> ascii ''[DONE]''"
  "py_strip (ascii ''[DONE]'') = ascii ''[DONE]''"
  by (simp_all add: py_strip_def py_isspace_def ascii_def)

section \<open>The retry loop\<close>

lemma generation_calls_append [simp]:
  "generation_calls (h @ h') = generation_calls h + generation_calls h'"
  by (simp add: generation_calls_def)

lemma generation_calls_single [simp]:
  "generation_calls [ChatCall r] = 1" "generation_calls [CompletionsCall r] = 0"
  "generation_calls [EmbeddingsCall r] = 0" "generation_calls [SearchCall q] = 0"
  "generation_calls [] = 0"
  by (simp_all add: generation_calls_def)

lemma supervise_answer_calls:
  "generation_calls (snd (sup_supervise_answer v w h um a)) = generation_calls h"
  by (simp add: sup_supervise_answer_def Let_def split: sum.splits)

lemma attempt_calls:
  "generation_calls (snd (sup_attempt v w h um b)) = Suc (generation_calls h)"
  by (simp add: sup_attempt_def Let_def case_prod_unfold supervise_answer_calls
        split: http_reply.splits sum.splits)

lemma after_attempts_0 [simp]: "after_attempts v w um b 0 h = h"
  by (simp add: after_attempts_def)

lemma after_attempts_Suc:
  "after_attempts v w um b (Suc k) h = after_attempts v w um b k (snd (sup_attempt v w h um b))"
  unfolding after_attempts_def by (simp only: funpow_Suc_right o_apply)

lemma after_attempts_calls:
  "generation_calls (after_attempts v w um b k h) = generation_calls h + k"
  by (induction k arbitrary: h) (simp_all add: after_attempts_Suc attempt_calls)

lemma attempt_outcome_0: "attempt_outcome v w um b h 0 = fst (sup_attempt v w h um b)"
  by (simp add: attempt_outcome_def)

lemma attempt_outcome_Suc:
  "attempt_outcome v w um b h (Suc k) = attempt_outcome v w um b (snd (sup_attempt v w h um b)) k"
  by (simp add: attempt_outcome_def after_attempts_Suc)

lemma loop_exhausted: "sup_pipe_loop v w um b max_retries h = (Inr exhausted_message, h)"
  by (simp add: sup_pipe_loop.simps)

lemma loop_rejected:
  assumes "rc < max_retries" "is_rejected (attempt_outcome v w um b h 0)"
  shows "sup_pipe_loop v w um b rc h =
           sup_pipe_loop v w um b (Suc rc) (after_attempts v w um b 1 h)"
proof -
  obtain a h' where "sup_attempt v w h um b = (Rejected a, h')"
    using assms(2) by (cases "sup_attempt v w h um b"; cases "fst (sup_attempt v w h um b)")
      (auto simp: attempt_outcome_0)
  then show ?thesis using assms(1)
    by (subst sup_pipe_loop.simps) (simp add: after_attempts_Suc)
qed

lemma loop_approved:
  assumes "rc < max_retries" "attempt_outcome v w um b h 0 = Approved a"
  shows "sup_pipe_loop v w um b rc h = (Inr a, after_attempts v w um b 1 h)"
proof -
  obtain h' where "sup_attempt v w h um b = (Approved a, h')"
    using assms(2) by (cases "sup_attempt v w h um b") (auto simp: attempt_outcome_0)
  then show ?thesis using assms(1)
    by (subst sup_pipe_loop.simps) (simp add: after_attempts_Suc)
qed

lemma loop_raised:
  assumes "rc < max_retries" "attempt_outcome v w um b h 0 = Raised e"
  shows "sup_pipe_loop v w um b rc h = (Inl e, after_attempts v w um b 1 h)"
proof -
  obtain h' where "sup_attempt v w h um b = (Raised e, h')"
    using assms(2) by (cases "sup_attempt v w h um b") (auto simp: attempt_outcome_0)
  then show ?thesis using assms(1)
    by (subst sup_pipe_loop.simps) (simp add: after_attempts_Suc)
qed

lemma loop_skip_rejected:
  assumes "rc + k \<le> max_retries" "\<forall>j<k. is_rejected (attempt_outcome v w um b h j)"
  shows "sup_pipe_loop v w um b rc h =
           sup_pipe_loop v w um b (rc + k) (after_attempts v w um b k h)"
  using assms
proof (induction k arbitrary: rc h)
  case 0
  then show ?case by simp
next
  case (Suc k)
  let ?h' = "snd (sup_attempt v w h um b)"
  have first: "is_rejected (attempt_outcome v w um b h 0)"
    using Suc.prems(2) by simp
  have rest: "\<forall>j<k. is_rejected (attempt_outcome v w um b ?h' j)"
    using Suc.prems(2) by (auto simp: attempt_outcome_Suc [symmetric])
  have "sup_pipe_loop v w um b rc h = sup_pipe_loop v w um b (Suc rc) ?h'"
    using loop_rejected [OF _ first, of rc] Suc.prems(1) by (simp add: after_attempts_Suc)
  also have "\<dots> = sup_pipe_loop v w um b (Suc rc + k) (after_attempts v w um b k ?h')"
    using Suc.IH [of "Suc rc" ?h'] Suc.prems(1) rest by simp
  finally show ?case by (simp add: after_attempts_Suc)
qed

lemma after_attempts_last:
  "after_attempts v w um b (Suc k) h =
     snd (sup_attempt v w (after_attempts v w um b k h) um b)"
  by (simp add: after_attempts_def)

lemma attempt_outcome_shift:
  "attempt_outcome v w um b (after_attempts v w um b k h) 0 = attempt_outcome v w um b h k"
  by (simp add: attempt_outcome_def)

lemma after_attempts_one:
  "after_attempts v w um b 1 (after_attempts v w um b k h) = after_attempts v w um b (Suc k) h"
  by (simp add: after_attempts_def)

lemma loop_first_approved:
  assumes "k < max_retries" "\<forall>j<k. is_rejected (attempt_outcome v w um b h j)"
    "attempt_outcome v w um b h k = Approved a"
  shows "sup_pipe_loop v w um b 0 h = (Inr a, after_attempts v w um b (Suc k) h)"
proof -
  have "sup_pipe_loop v w um b 0 h = sup_pipe_loop v w um b k (after_attempts v w um b k h)"
    using loop_skip_rejected [of 0 k v w um b h] assms(1,2) by simp
  also have "\<dots> = (Inr a, after_attempts v w um b 1 (after_attempts v w um b k h))"
    by (rule loop_approved [OF assms(1)]) (simp add: attempt_outcome_shift assms(3))
  finally show ?thesis by (simp only: after_attempts_one)
qed

lemma loop_first_raised:
  assumes "k < max_retries" "\<forall>j<k. is_rejected (attempt_outcome v w um b h j)"
    "attempt_outcome v w um b h k = Raised e"
  shows "sup_pipe_loop v w um b 0 h = (Inl e, after_attempts v w um b (Suc k) h)"
proof -
  have "sup_pipe_loop v w um b 0 h = sup_pipe_loop v w um b k (after_attempts v w um b k h)"
    using loop_skip_rejected [of 0 k v w um b h] assms(1,2) by simp
  also have "\<dots> = (Inl e, after_attempts v w um b 1 (after_attempts v w um b k h))"
    by (rule loop_raised [OF assms(1)]) (simp add: attempt_outcome_shift assms(3))
  finally show ?thesis by (simp only: after_attempts_one)
qed

lemma loop_all_rejected:
  assumes "\<forall>j<max_retries. is_rejected (attempt_outcome v w um b h j)"
  shows "sup_pipe_loop v w um b 0 h =
           (Inr exhausted_message, after_attempts v w um b max_retries h)"
proof -
  have "sup_pipe_loop v w um b 0 h =
          sup_pipe_loop v w um b max_retries (after_attempts v w um b max_retries h)"
    using loop_skip_rejected [of 0 max_retries v w um b h] assms by simp
  then show ?thesis by (simp only: loop_exhausted)
qed

lemma first_failure:
  "(\<forall>j<n. R j) \<or> (\<exists>k<n. (\<forall>j<k. R j) \<and> \<not> R k)" for n :: nat
proof (induction n)
  case 0
  then show ?case by simp
next
  case (Suc n)
  then show ?case
  proof
    assume all: "\<forall>j<n. R j"
    show ?thesis
    proof (cases "R n")
      case True
      with all have "\<forall>j<Suc n. R j" by (simp add: less_Suc_eq)
      then show ?thesis ..
    next
      case False
      with all have "\<exists>k<Suc n. (\<forall>j<k. R j) \<and> \<not> R k" by blast
      then show ?thesis ..
    qed
  next
    assume "\<exists>k<n. (\<forall>j<k. R j) \<and> \<not> R k"
    then have "\<exists>k<Suc n. (\<forall>j<k. R j) \<and> \<not> R k" using less_Suc_eq by blast
    then show ?thesis ..
  qed
qed

lemma not_rejected_cases:
  "\<not> is_rejected x \<Longrightarrow> (\<exists>a. x = Approved a) \<or> (\<exists>e. x = Raised e)"
  by (cases x) auto

lemma pipe_try_outcomes:
  "(\<exists>k<max_retries. (\<forall>j<k. is_rejected (attempt_outcome v w um b h j))
        \<and> attempt_outcome v w um b h k = Approved (fst (sup_pipe_try v w um b h))
        \<and> snd (sup_pipe_try v w um b h) = after_attempts v w um b (Suc k) h)
   \<or> (\<exists>k<max_retries. \<exists>e. (\<forall>j<k. is_rejected (attempt_outcome v w um b h j))
        \<and> attempt_outcome v w um b h k = Raised e
        \<and> fst (sup_pipe_try v w um b h) = error_string w e
        \<and> snd (sup_pipe_try v w um b h) = after_attempts v w um b (Suc k) h)
   \<or> ((\<forall>j<max_retries. is_rejected (attempt_outcome v w um b h j))
        \<and> fst (sup_pipe_try v w um b h) = exhausted_message
        \<and> snd (sup_pipe_try v w um b h) = after_attempts v w um b max_retries h)"
proof -
  let ?R = "\<lambda>j. is_rejected (attempt_outcome v w um b h j)"
  from first_failure [of max_retries ?R] show ?thesis
  proof
    assume all: "\<forall>j<max_retries. ?R j"
    then have "sup_pipe_try v w um b h = (exhausted_message, after_attempts v w um b max_retries h)"
      by (simp add: sup_pipe_try_def loop_all_rejected)
    with all show ?thesis by simp
  next
    assume "\<exists>k<max_retries. (\<forall>j<k. ?R j) \<and> \<not> ?R k"
    then obtain k where k: "k < max_retries" "\<forall>j<k. ?R j" "\<not> ?R k" by blast
    from not_rejected_cases [OF k(3)] show ?thesis
    proof
      assume "\<exists>a. attempt_outcome v w um b h k = Approved a"
      then obtain a where a: "attempt_outcome v w um b h k = Approved a" ..
      have "sup_pipe_try v w um b h = (a, after_attempts v w um b (Suc k) h)"
        by (simp add: sup_pipe_try_def loop_first_approved [OF k(1,2) a])
      with k a show ?thesis by auto
    next
      assume "\<exists>e. attempt_outcome v w um b h k = Raised e"
      then obtain e where e: "attempt_outcome v w um b h k = Raised e" ..
      have "sup_pipe_try v w um b h = (error_string w e, after_attempts v w um b (Suc k) h)"
        by (simp add: sup_pipe_try_def loop_first_raised [OF k(1,2) e])
      with k e show ?thesis by auto
    qed
  qed
qed

lemma pipe_try_calls:
  "generation_calls (snd (sup_pipe_try v w um b h)) \<le> generation_calls h + max_retries"
  using pipe_try_outcomes [of v w um b h]
  by (auto simp: after_attempts_calls)

lemma generate_embedding_calls:
  "generation_calls (snd (sup_generate_embedding v w h t)) = generation_calls h"
  by (simp add: sup_generate_embedding_def Let_def split: sum.splits)

lemma retrieve_calls:
  "generation_calls (snd (sup_retrieve_relevant_information v w h um)) = generation_calls h"
  by (simp add: sup_retrieve_relevant_information_def Let_def case_prod_unfold
        generate_embedding_calls split: sum.splits list.splits)

lemma pipe_calls:
  "generation_calls (snd (snd (sup_pipe v w h um mid msgs body))) \<le> generation_calls h + max_retries"
proof -
  let ?h1 = "snd (sup_retrieve_relevant_information v w h um)"
  have r: "generation_calls ?h1 = generation_calls h"
    by (rule retrieve_calls)
  have t: "\<And>b. generation_calls (snd (sup_pipe_try v w um b ?h1)) \<le> generation_calls h + max_retries"
    using pipe_try_calls [of v w um _ ?h1] by (simp add: r)
  show ?thesis
    by (simp add: sup_pipe_def Let_def case_prod_unfold r t split: sum.splits option.splits)
qed

lemma toy_stream_hello: "assemble_stream toy_loads toy_stream [] = Inr (ascii ''Hello'')"
proof -
  have sent: "\<not> is_sentinel (Utf8 (ascii ''data: A''))" "\<not> is_sentinel (Utf8 [])"
      "\<not> is_sentinel (Utf8 (ascii ''data: {oops''))" "\<not> is_sentinel (Utf8 (ascii '': ping''))"
      "\<not> is_sentinel (Utf8 (ascii ''data: B''))" "is_sentinel (Utf8 (ascii ''data: [DONE]''))"
    by (simp_all add: is_sentinel_def toy_lines strip_examples)
  have spec: "spec_assembled toy_loads toy_stream = ascii ''Hello''"
    by (simp add: spec_assembled_def toy_stream_def sent frame_fragment_def toy_lines
          toy_loads_values delta_content_chunk_with)
       (simp add: ascii_def)
  have clean: "\<forall>l \<in> set (takeWhile (\<lambda>l. \<not> is_sentinel l) toy_stream). line_fault toy_loads l = None"
    by (simp add: toy_stream_def sent line_fault_def toy_lines toy_loads_values
          delta_content_chunk_with)
  show ?thesis
    using assemble_stream_clean [OF clean, of "[]"] spec by simp
qed

lemma completion_with_text: "py_bind (reply_json (completion_with t)) choice_text = Inr (py_strip t)"
  by (simp add: completion_with_def choice_text_def choice_text_value_def ascii_def)

lemma verdict_examples:
  "py_in keyword_conforms (py_strip keyword_conforms)"
  "\<not> py_in keyword_conforms (py_strip (ascii ''true''))"
  unfolding conforms_in_strip
  by (simp_all add: keyword_conforms_def ascii_def sublist_Cons_right)

lemma third_time_verdict:
  "fst (sup_supervise_answer v third_time_world h um a) \<longleftrightarrow> generation_calls h = 3"
  by (simp add: sup_supervise_answer_def Let_def third_time_world_def completion_with_text
        verdict_examples)

lemma never_verdict: "\<not> fst (sup_supervise_answer v never_world h um a)"
  by (simp add: sup_supervise_answer_def Let_def never_world_def completion_with_text
        verdict_examples)

lemma toy_attempt:
  assumes "json_loads w = toy_loads" "chat_api w = (\<lambda>h req. Response toy_stream None)"
  shows "fst (sup_attempt v w h um b) =
           (if fst (sup_supervise_answer v w
                      (h @ [ChatCall (JObj (dict_set (ascii ''model'') (JStr (LLM_MODEL v)) b))])
                      um (ascii ''Hello''))
            then Approved (ascii ''Hello'') else Rejected (ascii ''Hello''))"
  by (simp add: sup_attempt_def Let_def assms toy_stream_hello case_prod_unfold)

lemma third_time_outcome:
  "attempt_outcome v third_time_world um b h k =
     (if generation_calls h + k = 2 then Approved (ascii ''Hello'')
      else Rejected (ascii ''Hello''))"
proof -
  have "json_loads third_time_world = toy_loads"
    "chat_api third_time_world = (\<lambda>h req. Response toy_stream None)"
    by (simp_all add: third_time_world_def)
  then show ?thesis
    by (simp add: attempt_outcome_def toy_attempt third_time_verdict after_attempts_calls)
qed

lemma never_outcome:
  "attempt_outcome v never_world um b h k = Rejected (ascii ''Hello'')"
proof -
  have "json_loads never_world = toy_loads"
    "chat_api never_world = (\<lambda>h req. Response toy_stream None)"
    by (simp_all add: never_world_def)
  then show ?thesis
    by (simp add: attempt_outcome_def toy_attempt never_verdict)
qed

section \<open>Embeddings\<close>





lemma embedding_world_reply:
  "reply_embedding (embeddings_api (embedding_world e) h req) = Inr e"
  by (simp add: embedding_world_def silent_world_def reply_embedding_def ascii_def)

section \<open>Retrieval\<close>

lemma sup_retrieve_search_raises:
  assumes "search_api w (snd (sup_generate_embedding v w h um))
             \<lparr>sr_data = [fst (sup_generate_embedding v w h um)], sr_metric_type = ascii ''IP'',
              sr_nprobe = 10, sr_limit = 10\<rparr> = Inl e"
  shows "fst (sup_retrieve_relevant_information v w h um) = []"
  using assms
  by (simp add: sup_retrieve_relevant_information_def Let_def case_prod_unfold)

lemma rag_retrieve_search_raises:
  assumes "search_api w (snd (rag_generate_embedding v w h um))
             \<lparr>sr_data = [fst (rag_generate_embedding v w h um)], sr_metric_type = ascii ''L2'',
              sr_nprobe = 10, sr_limit = 5\<rparr> = Inl e"
  shows "fst (rag_retrieve_relevant_information v w h um) = Inl e"
  using assms
  by (simp add: rag_retrieve_relevant_information_def Let_def case_prod_unfold)

lemma hyde_answer_guess:
  "fst (hyde_generate_hypothetical_answer v hyde_failing_world h um) = Inr (ascii ''guess'')"
  "fst (hyde_generate_hypothetical_answer v hyde_two_hits_world h um) = Inr (ascii ''guess'')"
  by (simp_all add: hyde_generate_hypothetical_answer_def Let_def hyde_failing_world_def
        hyde_two_hits_world_def completion_with_text)
     (simp_all add: py_strip_def py_isspace_def ascii_def)

section \<open>The body and the three pipes\<close>

lemma map_of_dict_set: "map_of (dict_set k v d) k' = (if k' = k then Some v else map_of d k')"
  by (induction d) auto

lemma dict_set_twice: "dict_set k v' (dict_set k v d) = dict_set k v' d"
  by (induction d) auto

lemma append_first_message:
  "append_message (dict_set (ascii ''messages'') (JArr []) body) m =
     Inr (dict_set (ascii ''messages'') (JArr [m]) body)"
  by (simp add: append_message_def map_of_dict_set dict_set_twice)

lemma print_user_none: "map_of body (ascii ''user'') = None \<Longrightarrow> print_user body = None"
  by (simp add: print_user_def)

lemma sup_pipe_unfold:
  "sup_pipe v w h um mid msgs body =
     (let r = sup_retrieve_relevant_information v w h um;
          body2 = dict_set (ascii ''messages'')
                    (JArr [user_turn (sup_combine_user_message_with_context v um (fst r))]) body
      in case print_user body2 of
           Some e \<Rightarrow> (Inl e, body2, snd r)
         | None \<Rightarrow> (Inr (VStr (fst (sup_pipe_try v w um body2 (snd r)))), body2,
                    snd (sup_pipe_try v w um body2 (snd r))))"
  by (simp add: sup_pipe_def Let_def case_prod_unfold append_first_message split: option.splits)

lemma rag_pipe_unfold:
  "rag_pipe v w h um mid msgs body =
     (let r = rag_retrieve_relevant_information v w h um
      in case fst r of
           Inl e \<Rightarrow> (Inl e, dict_set (ascii ''messages'') (JArr []) body, snd r)
         | Inr ctx \<Rightarrow>
             (let body2 = dict_set (ascii ''messages'')
                            (JArr [user_turn (rag_combine_user_message_with_context v um ctx)]) body
              in case print_user body2 of
                   Some e \<Rightarrow> (Inl e, body2, snd r)
                 | None \<Rightarrow> (Inr (fst (pipe_try v w body2 (snd r))), body2,
                            snd (pipe_try v w body2 (snd r)))))"
  by (simp add: rag_pipe_def Let_def case_prod_unfold append_first_message
        split: option.splits sum.splits)

lemma hyde_pipe_unfold:
  "hyde_pipe v w h um mid msgs body =
     (let r = hyde_retrieve_relevant_information v w h um
      in case fst r of
           Inl e \<Rightarrow> (Inl e, dict_set (ascii ''messages'') (JArr []) body, snd r)
         | Inr ctx \<Rightarrow>
             (let body2 = dict_set (ascii ''messages'')
                            (JArr [user_turn (hyde_combine_user_message_with_context v um ctx)]) body
              in case print_user body2 of
                   Some e \<Rightarrow> (Inl e, body2, snd r)
                 | None \<Rightarrow> (Inr (fst (pipe_try v w body2 (snd r))), body2,
                            snd (pipe_try v w body2 (snd r)))))"
  by (simp add: hyde_pipe_def Let_def case_prod_unfold append_first_message
        split: option.splits sum.splits)

lemma body_messages_set: "body_messages (dict_set (ascii ''messages'') v body) = Some v"
  by (simp add: body_messages_def map_of_dict_set)

lemma sup_pipe_messages:
  "body_messages (fst (snd (sup_pipe v w h um mid msgs body))) =
     Some (JArr [user_turn (sup_combine_user_message_with_context v um
                              (fst (sup_retrieve_relevant_information v w h um)))])"
  by (simp add: sup_pipe_unfold Let_def body_messages_set split: option.splits)

lemma rag_pipe_messages:
  "body_messages (fst (snd (rag_pipe v w h um mid msgs body))) =
     Some (JArr (case fst (rag_retrieve_relevant_information v w h um) of
                   Inl e \<Rightarrow> []
                 | Inr ctx \<Rightarrow> [user_turn (rag_combine_user_message_with_context v um ctx)]))"
  by (simp add: rag_pipe_unfold Let_def body_messages_set split: option.splits sum.splits)

lemma hyde_pipe_messages:
  "body_messages (fst (snd (hyde_pipe v w h um mid msgs body))) =
     Some (JArr (case fst (hyde_retrieve_relevant_information v w h um) of
                   Inl e \<Rightarrow> []
                 | Inr ctx \<Rightarrow> [user_turn (hyde_combine_user_message_with_context v um ctx)]))"
  by (simp add: hyde_pipe_unfold Let_def body_messages_set split: option.splits sum.splits)

lemma two_hits_rag_retrieve:
  "fst (rag_retrieve_relevant_information example_valves hyde_two_hits_world h (ascii ''q''))
     = Inr [ascii ''A'']"
  by (simp add: rag_retrieve_relevant_information_def Let_def case_prod_unfold
        hyde_two_hits_world_def)

subsection \<open>The retry loop and the protocol\<close>

lemma supervise_answer_spec:
  "sup_supervise_answer v w h um a =
     (spec_approved v w h um a, h @ [CompletionsCall (supervision_request v um a)])"
proof -
  let ?r = "completions_api w h (supervision_request v um a)"
  have "fst (sup_supervise_answer v w h um a) \<longleftrightarrow> spec_approved v w h um a"
  proof (cases ?r)
    case (PostRaises e)
    then show ?thesis by (simp add: supervise_answer_fst spec_approved_def)
  next
    case ErrorStatus
    then show ?thesis by (simp add: supervise_answer_fst spec_approved_def)
  next
    case (Response ls body)
    show ?thesis
    proof (cases body)
      case None
      then show ?thesis using Response by (simp add: supervise_answer_fst spec_approved_def)
    next
      case (Some j)
      show ?thesis
      proof (cases "choice_text_value j")
        case (Inl e)
        then show ?thesis using Response Some
          by (simp add: supervise_answer_fst spec_approved_def choice_text_def)
      next
        case (Inr x)
        then show ?thesis using Response Some
          by (cases x)
             (simp_all add: supervise_answer_fst spec_approved_def choice_text_def conforms_in_strip)
      qed
    qed
  qed
  moreover have "snd (sup_supervise_answer v w h um a) = h @ [CompletionsCall (supervision_request v um a)]"
    by (simp add: sup_supervise_answer_def Let_def split: sum.splits)
  ultimately show ?thesis by (simp add: prod_eq_iff)
qed

lemma sup_attempt_spec:
  "sup_attempt v w h um b =
     (let generation = ChatCall (JObj (dict_set (ascii ''model'') (JStr (LLM_MODEL v)) b))
      in case spec_generated v w b h of
           Inl e \<Rightarrow> (Raised e, h @ [generation])
         | Inr a \<Rightarrow>
             (if spec_approved v w (h @ [generation]) um a then Approved a else Rejected a,
              h @ [generation, CompletionsCall (supervision_request v um a)]))"
  by (simp add: sup_attempt_def spec_generated_def Let_def supervise_answer_spec
        split: http_reply.splits sum.splits)

lemma after_attempts_spec: "after_attempts v w um b k h = spec_trace v w um b h k"
proof (induction k)
  case 0
  then show ?case by simp
next
  case (Suc k)
  then show ?case
    by (simp add: after_attempts_last sup_attempt_spec Let_def split: sum.splits)
qed

lemma attempt_outcome_spec: "attempt_outcome v w um b h k = spec_outcome v w um b h k"
  by (simp add: attempt_outcome_def after_attempts_spec sup_attempt_spec spec_outcome_def Let_def
        split: sum.splits)

lemma print_user_messages:
  "print_user (dict_set (ascii ''messages'') x body) = print_user body"
  by (simp add: print_user_def map_of_dict_set ascii_def)

lemma approved_last:
  assumes "attempt_outcome v w um b h k = Approved a"
  shows "last (after_attempts v w um b (Suc k) h) = CompletionsCall (supervision_request v um a)"
  using assms
  by (simp add: attempt_outcome_def after_attempts_last sup_attempt_spec Let_def
        split: sum.splits if_splits)

lemma sup_pipe_cases:
  fixes v w h um mid msgs body
  defines "r \<equiv> sup_retrieve_relevant_information v w h um"
  defines "b \<equiv> dict_set (ascii ''messages'')
      (JArr [JObj [(ascii ''role'', JStr (ascii ''user'')),
                   (ascii ''content'', JStr (sup_combine_user_message_with_context v um (fst r)))]])
      body"
  shows "print_user body = None \<Longrightarrow>
           sup_pipe v w h um mid msgs body =
             (Inr (VStr (fst (sup_pipe_try v w um b (snd r)))), b, snd (sup_pipe_try v w um b (snd r)))"
    and "print_user body = Some e \<Longrightarrow> sup_pipe v w h um mid msgs body = (Inl e, b, snd r)"
  unfolding r_def b_def
  by (simp_all add: sup_pipe_unfold Let_def user_turn_def print_user_messages)

subsection \<open>The requests a call sends\<close>

lemma spec_trace_extends:
  "\<exists>new. spec_trace v w um b h k = h @ new
      \<and> (\<forall>req. ChatCall req \<in> set new
            \<longrightarrow> req = JObj (dict_set (ascii ''model'') (JStr (LLM_MODEL v)) b))
      \<and> (0 < k \<longrightarrow> ChatCall (JObj (dict_set (ascii ''model'') (JStr (LLM_MODEL v)) b)) \<in> set new)"
proof (induction k)
  case 0
  then show ?case by simp
next
  case (Suc k)
  then obtain new where n: "spec_trace v w um b h k = h @ new"
    "\<forall>req. ChatCall req \<in> set new \<longrightarrow> req = JObj (dict_set (ascii ''model'') (JStr (LLM_MODEL v)) b)"
    by blast
  let ?g = "ChatCall (JObj (dict_set (ascii ''model'') (JStr (LLM_MODEL v)) b))"
  show ?case
  proof (cases "spec_generated v w b (spec_trace v w um b h k)")
    case (Inl e)
    then have "spec_trace v w um b h (Suc k) = h @ (new @ [?g])"
      by (simp add: n(1) Let_def)
    moreover have "\<forall>req. ChatCall req \<in> set (new @ [?g])
        \<longrightarrow> req = JObj (dict_set (ascii ''model'') (JStr (LLM_MODEL v)) b)"
      using n(2) by auto
    moreover have "?g \<in> set (new @ [?g])" by simp
    ultimately show ?thesis by blast
  next
    case (Inr a)
    then have "spec_trace v w um b h (Suc k) =
        h @ (new @ [?g, CompletionsCall (supervision_request v um a)])"
      by (simp add: n(1) Let_def)
    moreover have "\<forall>req. ChatCall req \<in> set (new @ [?g, CompletionsCall (supervision_request v um a)])
        \<longrightarrow> req = JObj (dict_set (ascii ''model'') (JStr (LLM_MODEL v)) b)"
      using n(2) by auto
    moreover have "?g \<in> set (new @ [?g, CompletionsCall (supervision_request v um a)])" by simp
    ultimately show ?thesis by blast
  qed
qed

lemma pipe_try_trace_attempts:
  "\<exists>k. 0 < k \<and> snd (sup_pipe_try v w um b h) = after_attempts v w um b k h"
proof -
  have "(\<exists>k<max_retries. snd (sup_pipe_try v w um b h) = after_attempts v w um b (Suc k) h)
      \<or> snd (sup_pipe_try v w um b h) = after_attempts v w um b max_retries h"
    using pipe_try_outcomes [of v w um b h] by blast
  then show ?thesis
  proof
    assume "\<exists>k<max_retries. snd (sup_pipe_try v w um b h) = after_attempts v w um b (Suc k) h"
    then obtain k where "snd (sup_pipe_try v w um b h) = after_attempts v w um b (Suc k) h" by blast
    then show ?thesis by (intro exI [of _ "Suc k"]) simp
  next
    assume "snd (sup_pipe_try v w um b h) = after_attempts v w um b max_retries h"
    then show ?thesis by (intro exI [of _ max_retries]) (simp add: max_retries_def)
  qed
qed

lemma sup_pipe_try_requests:
  "\<exists>new. snd (sup_pipe_try v w um b h) = h @ new
      \<and> (\<forall>req. ChatCall req \<in> set new
            \<longrightarrow> req = JObj (dict_set (ascii ''model'') (JStr (LLM_MODEL v)) b))
      \<and> ChatCall (JObj (dict_set (ascii ''model'') (JStr (LLM_MODEL v)) b)) \<in> set new"
proof -
  obtain k where k: "0 < k" "snd (sup_pipe_try v w um b h) = spec_trace v w um b h k"
    using pipe_try_trace_attempts [of v w um b h] by (auto simp: after_attempts_spec)
  show ?thesis
    using spec_trace_extends [of v w um b h k] k by auto
qed

lemma sup_generate_embedding_trace:
  "snd (sup_generate_embedding v w h t) =
     h @ [EmbeddingsCall (embedding_request_dim (EMBEDDING_MODEL v) (JStr t))]"
  by (simp add: sup_generate_embedding_def Let_def split: sum.splits)

lemma sup_retrieve_trace:
  "\<exists>new. snd (sup_retrieve_relevant_information v w h um) = h @ new
      \<and> (\<forall>req. ChatCall req \<notin> set new)"
proof -
  have "snd (sup_retrieve_relevant_information v w h um) =
      h @ [EmbeddingsCall (embedding_request_dim (EMBEDDING_MODEL v) (JStr um))]
    \<or> (\<exists>q. snd (sup_retrieve_relevant_information v w h um) =
      h @ [EmbeddingsCall (embedding_request_dim (EMBEDDING_MODEL v) (JStr um)), SearchCall q])"
    by (simp add: sup_retrieve_relevant_information_def Let_def case_prod_unfold
          sup_generate_embedding_trace split: sum.splits list.splits)
  then show ?thesis by auto
qed

lemma rag_generate_embedding_trace:
  "snd (rag_generate_embedding v w h t) =
     h @ [EmbeddingsCall (embedding_request (EMBEDDING_MODEL v) (JStr t))]"
  by (simp add: rag_generate_embedding_def Let_def split: sum.splits)

lemma hyde_generate_embedding_trace:
  "snd (hyde_generate_embedding v w h t) =
     h @ [EmbeddingsCall (embedding_request_dim (EMBEDDING_MODEL v) (JStr t))]"
  by (simp add: hyde_generate_embedding_def Let_def split: sum.splits)

lemma rag_retrieve_trace:
  "\<exists>new. snd (rag_retrieve_relevant_information v w h um) = h @ new
      \<and> (\<forall>req. ChatCall req \<notin> set new)"
proof -
  have "\<exists>q. snd (rag_retrieve_relevant_information v w h um) =
      h @ [EmbeddingsCall (embedding_request (EMBEDDING_MODEL v) (JStr um)), SearchCall q]"
    by (simp add: rag_retrieve_relevant_information_def Let_def case_prod_unfold
          rag_generate_embedding_trace split: sum.splits list.splits)
  then show ?thesis by auto
qed

lemma hyde_retrieve_trace:
  "\<exists>new. snd (hyde_retrieve_relevant_information v w h um) = h @ new
      \<and> (\<forall>req. ChatCall req \<notin> set new)"
proof -
  have "(\<exists>c. snd (hyde_retrieve_relevant_information v w h um) =
      h @ [EmbeddingsCall (embedding_request_dim (EMBEDDING_MODEL v) (JStr um)), CompletionsCall c])
    \<or> (\<exists>c e q. snd (hyde_retrieve_relevant_information v w h um) =
      h @ [EmbeddingsCall (embedding_request_dim (EMBEDDING_MODEL v) (JStr um)), CompletionsCall c,
           EmbeddingsCall e, SearchCall q])"
    by (simp add: hyde_retrieve_relevant_information_def Let_def case_prod_unfold
          hyde_generate_embedding_trace hyde_generate_hypothetical_answer_def
          split: sum.splits list.splits)
  then show ?thesis by auto
qed

lemma pipe_try_trace:
  "snd (pipe_try v w b h) = h @ [ChatCall (JObj (dict_set (ascii ''model'') (JStr (LLM_MODEL v)) b))]"
  by (simp add: pipe_try_def Let_def split: sum.splits)

lemma sup_pipe_same_messages:
  "sup_pipe v w h um mid' msgs' (dict_set (ascii ''messages'') x body) =
     sup_pipe v w h um mid msgs body"
  by (simp add: sup_pipe_unfold Let_def dict_set_twice)

lemma rag_pipe_same_messages:
  "rag_pipe v w h um mid' msgs' (dict_set (ascii ''messages'') x body) =
     rag_pipe v w h um mid msgs body"
  by (simp add: rag_pipe_unfold Let_def dict_set_twice split: sum.splits)

lemma hyde_pipe_same_messages:
  "hyde_pipe v w h um mid' msgs' (dict_set (ascii ''messages'') x body) =
     hyde_pipe v w h um mid msgs body"
  by (simp add: hyde_pipe_unfold Let_def dict_set_twice split: sum.splits)

lemma sup_pipe_body: "\<exists>x. fst (snd (sup_pipe v w h um mid msgs body)) = dict_set (ascii ''messages'') x body"
  by (auto simp: sup_pipe_unfold Let_def split: option.splits)

lemma rag_pipe_body: "\<exists>x. fst (snd (rag_pipe v w h um mid msgs body)) = dict_set (ascii ''messages'') x body"
  by (auto simp: rag_pipe_unfold Let_def split: option.splits sum.splits)

lemma hyde_pipe_body: "\<exists>x. fst (snd (hyde_pipe v w h um mid msgs body)) = dict_set (ascii ''messages'') x body"
  by (auto simp: hyde_pipe_unfold Let_def split: option.splits sum.splits)

lemma sup_pipe_after_call:
  "sup_pipe v w h um mid msgs (fst (snd (sup_pipe v w h0 m1 mid1 msgs1 body))) =
     sup_pipe v w h um mid msgs body"
  using sup_pipe_body [of v w h0 m1 mid1 msgs1 body]
  by (auto simp: sup_pipe_same_messages [of v w h um mid msgs _ body mid msgs])

lemma rag_pipe_after_call:
  "rag_pipe v w h um mid msgs (fst (snd (rag_pipe v w h0 m1 mid1 msgs1 body))) =
     rag_pipe v w h um mid msgs body"
  using rag_pipe_body [of v w h0 m1 mid1 msgs1 body]
  by (auto simp: rag_pipe_same_messages [of v w h um mid msgs _ body mid msgs])

lemma hyde_pipe_after_call:
  "hyde_pipe v w h um mid msgs (fst (snd (hyde_pipe v w h0 m1 mid1 msgs1 body))) =
     hyde_pipe v w h um mid msgs body"
  using hyde_pipe_body [of v w h0 m1 mid1 msgs1 body]
  by (auto simp: hyde_pipe_same_messages [of v w h um mid msgs _ body mid msgs])

lemma sup_pipe_requests:
  fixes v w h um mid msgs body
  defines "turn \<equiv> JObj [(ascii ''role'', JStr (ascii ''user'')),
      (ascii ''content'',
       JStr (PROMPT v @ [10, 10] @ label_user_question @ [10, 10] @ um @ [10, 10]
             @ label_learned_content
             @ py_join [10] (fst (sup_retrieve_relevant_information v w h um))))]"
  defines "request \<equiv> JObj (dict_set (ascii ''model'') (JStr (LLM_MODEL v))
      (dict_set (ascii ''messages'') (JArr [turn]) body))"
  shows "body_messages (fst (snd (sup_pipe v w h um mid msgs body))) = Some (JArr [turn])"
    and "\<exists>new. snd (snd (sup_pipe v w h um mid msgs body)) = h @ new
           \<and> (\<forall>req. ChatCall req \<in> set new \<longrightarrow> req = request)
           \<and> (print_user body = None \<longrightarrow> ChatCall request \<in> set new)"
proof -
  let ?r = "sup_retrieve_relevant_information v w h um"
  let ?b = "dict_set (ascii ''messages'') (JArr [turn]) body"
  have t: "user_turn (sup_combine_user_message_with_context v um (fst ?r)) = turn"
    by (simp add: turn_def user_turn_def sup_combine_user_message_with_context_def)
  show "body_messages (fst (snd (sup_pipe v w h um mid msgs body))) = Some (JArr [turn])"
    by (simp add: sup_pipe_messages t)
  obtain n1 where n1: "snd ?r = h @ n1" "\<forall>req. ChatCall req \<notin> set n1"
    using sup_retrieve_trace [of v w h um] by blast
  obtain n2 where n2: "snd (sup_pipe_try v w um ?b (snd ?r)) = snd ?r @ n2"
      "\<forall>req. ChatCall req \<in> set n2 \<longrightarrow> req = request" "ChatCall request \<in> set n2"
    using sup_pipe_try_requests [of v w um ?b "snd ?r"] unfolding request_def by blast
  show "\<exists>new. snd (snd (sup_pipe v w h um mid msgs body)) = h @ new
           \<and> (\<forall>req. ChatCall req \<in> set new \<longrightarrow> req = request)
           \<and> (print_user body = None \<longrightarrow> ChatCall request \<in> set new)"
  proof (cases "print_user body")
    case None
    then have "snd (snd (sup_pipe v w h um mid msgs body)) = h @ (n1 @ n2)"
      using n2(1) by (simp add: sup_pipe_unfold Let_def t print_user_messages n1(1))
    moreover have "\<forall>req. ChatCall req \<in> set (n1 @ n2) \<longrightarrow> req = request"
      using n1(2) n2(2) by auto
    moreover have "ChatCall request \<in> set (n1 @ n2)" using n2(3) by simp
    ultimately show ?thesis by blast
  next
    case (Some e)
    then have "snd (snd (sup_pipe v w h um mid msgs body)) = h @ n1"
      by (simp add: sup_pipe_unfold Let_def t print_user_messages n1(1))
    then show ?thesis using n1(2) Some by auto
  qed
qed

lemma plain_pipe_requests:
  assumes "snd r = h @ n1" "\<forall>req. ChatCall req \<notin> set n1"
  shows "\<exists>new. snd (snd (case print_user b of
                            Some e \<Rightarrow> (Inl e, b, snd r)
                          | None \<Rightarrow> (Inr (fst (pipe_try v w b (snd r))), b,
                                     snd (pipe_try v w b (snd r))))) = h @ new
           \<and> (\<forall>req. ChatCall req \<in> set new
                 \<longrightarrow> req = JObj (dict_set (ascii ''model'') (JStr (LLM_MODEL v)) b))
           \<and> (print_user b = None
                 \<longrightarrow> ChatCall (JObj (dict_set (ascii ''model'') (JStr (LLM_MODEL v)) b)) \<in> set new)"
proof (cases "print_user b")
  case None
  then show ?thesis
    using assms
    by (intro exI [of _ "n1 @ [ChatCall (JObj (dict_set (ascii ''model'') (JStr (LLM_MODEL v)) b))]"])
       (auto simp: pipe_try_trace)
next
  case (Some e)
  then show ?thesis using assms by (intro exI [of _ n1]) auto
qed

lemma rag_pipe_requests:
  fixes v w h um mid msgs body ctx
  defines "turn \<equiv> JObj [(ascii ''role'', JStr (ascii ''user'')),
      (ascii ''content'', JStr (PROMPT v @ [10, 10] @ um @ [10, 10] @ py_join [10] ctx))]"
  defines "request \<equiv> JObj (dict_set (ascii ''model'') (JStr (LLM_MODEL v))
      (dict_set (ascii ''messages'') (JArr [turn]) body))"
  assumes r: "fst (rag_retrieve_relevant_information v w h um) = Inr ctx"
  shows "body_messages (fst (snd (rag_pipe v w h um mid msgs body))) = Some (JArr [turn])"
    and "\<exists>new. snd (snd (rag_pipe v w h um mid msgs body)) = h @ new
           \<and> (\<forall>req. ChatCall req \<in> set new \<longrightarrow> req = request)
           \<and> (print_user body = None \<longrightarrow> ChatCall request \<in> set new)"
proof -
  let ?r = "rag_retrieve_relevant_information v w h um"
  have t: "user_turn (rag_combine_user_message_with_context v um ctx) = turn"
    by (simp add: turn_def user_turn_def rag_combine_user_message_with_context_def)
  show "body_messages (fst (snd (rag_pipe v w h um mid msgs body))) = Some (JArr [turn])"
    by (simp add: rag_pipe_messages r t)
  obtain n1 where n1: "snd ?r = h @ n1" "\<forall>req. ChatCall req \<notin> set n1"
    using rag_retrieve_trace [of v w h um] by blast
  show "\<exists>new. snd (snd (rag_pipe v w h um mid msgs body)) = h @ new
           \<and> (\<forall>req. ChatCall req \<in> set new \<longrightarrow> req = request)
           \<and> (print_user body = None \<longrightarrow> ChatCall request \<in> set new)"
    using plain_pipe_requests [OF n1, where b = "dict_set (ascii ''messages'') (JArr [turn]) body"
        and v = v and w = w]
    by (simp add: rag_pipe_unfold Let_def r t request_def print_user_messages)
qed

lemma hyde_pipe_requests:
  fixes v w h um mid msgs body ctx
  defines "turn \<equiv> JObj [(ascii ''role'', JStr (ascii ''user'')),
      (ascii ''content'',
       JStr (PROMPT v @ [10, 10] @ label_user_question @ [10, 10] @ um @ [10, 10]
             @ label_learned_content @ py_join [10] ctx))]"
  defines "request \<equiv> JObj (dict_set (ascii ''model'') (JStr (LLM_MODEL v))
      (dict_set (ascii ''messages'') (JArr [turn]) body))"
  assumes r: "fst (hyde_retrieve_relevant_information v w h um) = Inr ctx"
  shows "body_messages (fst (snd (hyde_pipe v w h um mid msgs body))) = Some (JArr [turn])"
    and "\<exists>new. snd (snd (hyde_pipe v w h um mid msgs body)) = h @ new
           \<and> (\<forall>req. ChatCall req \<in> set new \<longrightarrow> req = request)
           \<and> (print_user body = None \<longrightarrow> ChatCall request \<in> set new)"
proof -
  let ?r = "hyde_retrieve_relevant_information v w h um"
  have t: "user_turn (hyde_combine_user_message_with_context v um ctx) = turn"
    by (simp add: turn_def user_turn_def hyde_combine_user_message_with_context_def)
  show "body_messages (fst (snd (hyde_pipe v w h um mid msgs body))) = Some (JArr [turn])"
    by (simp add: hyde_pipe_messages r t)
  obtain n1 where n1: "snd ?r = h @ n1" "\<forall>req. ChatCall req \<notin> set n1"
    using hyde_retrieve_trace [of v w h um] by blast
  show "\<exists>new. snd (snd (hyde_pipe v w h um mid msgs body)) = h @ new
           \<and> (\<forall>req. ChatCall req \<in> set new \<longrightarrow> req = request)
           \<and> (print_user body = None \<longrightarrow> ChatCall request \<in> set new)"
    using plain_pipe_requests [OF n1, where b = "dict_set (ascii ''messages'') (JArr [turn]) body"
        and v = v and w = w]
    by (simp add: hyde_pipe_unfold Let_def r t request_def print_user_messages)
qed

lemma third_time_retrieve:
  "fst (sup_retrieve_relevant_information example_valves third_time_world h um) = []"
  by (rule sup_retrieve_search_raises [where e = StoreError])
     (simp add: third_time_world_def silent_world_def)

lemma print_user_stream:
  "print_user [(ascii ''stream'', JBool True)] = None"
  "print_user [(ascii ''messages'', x), (ascii ''stream'', JBool True)] = None"
  by (simp_all add: print_user_def ascii_def)

lemma example_valves_fields:
  "PROMPT example_valves = ascii ''persona''" "LLM_MODEL example_valves = ascii ''llm''"
  by (simp_all add: example_valves_def)

lemma request_sent:
  assumes "\<exists>new. t = h @ new \<and> P new \<and> (c \<longrightarrow> x \<in> set new)" "c"
  shows "x \<in> set t"
  using assms by auto

section \<open>Ingestion\<close>

lemma stored_records_append [simp]:
  "stored_records (h @ h') = stored_records h @ stored_records h'"
  by (simp add: stored_records_def List.map_filter_def)

lemma stored_records_Nil [simp]: "stored_records [] = []"
  by (simp add: stored_records_def)

lemma stored_records_Cons [simp]:
  "stored_records (ev # h) =
     (case stored_record ev of None \<Rightarrow> stored_records h | Some r \<Rightarrow> r # stored_records h)"
  by (simp add: stored_records_def split: option.splits)

lemma doc_summarize_trace:
  "snd (doc_summarize_text_with_llm w h text prompt) = h @ [ChatCall (doc_summary_request text prompt)]"
  by (simp add: doc_summarize_text_with_llm_def Let_def split: sum.splits)

lemma doc_generate_embedding_trace:
  "snd (doc_generate_embedding w h x) =
     h @ [EmbeddingsCall (embedding_request (ascii ''theepicdev/nomic-embed-text:v1.5-q6_K'') x)]"
  by (simp add: doc_generate_embedding_def Let_def split: sum.splits)

lemma doc_summarize_fallback:
  assumes "reply_summary (chat_api w h (doc_summary_request seg prompt)) = Inl e"
    "is_RequestException e"
  shows "doc_summarize_text_with_llm w h seg prompt =
           (Inr (JStr seg), h @ [ChatCall (doc_summary_request seg prompt)])"
  using assms by (simp add: doc_summarize_text_with_llm_def Let_def)

lemma process_segments_insert:
  assumes "\<not> is_blank seg"
    "doc_summarize_text_with_llm w h seg prompt = (Inr s, h1)"
    "doc_generate_embedding w h1 s = (Inr emb, h2)"
    "truthy emb \<and> is_list emb"
  shows "doc_process_segments w prompt (seg # rest) h =
           doc_process_segments w prompt rest
             (h2 @ [InsertCall emb s (insert_api w h2 emb s = None)])"
  using assms by simp

lemma process_segments_skip:
  assumes "\<not> is_blank seg"
    "doc_summarize_text_with_llm w h seg prompt = (Inr (JStr s), h1)"
    "doc_generate_embedding w h1 (JStr s) = (Inr emb, h2)"
    "\<not> (truthy emb \<and> is_list emb)"
  shows "doc_process_segments w prompt (seg # rest) h = doc_process_segments w prompt rest h2"
    and "stored_records h2 = stored_records h"
proof -
  show "doc_process_segments w prompt (seg # rest) h = doc_process_segments w prompt rest h2"
    using assms by auto
  have "h1 = snd (doc_summarize_text_with_llm w h seg prompt)"
    "h2 = snd (doc_generate_embedding w h1 (JStr s))"
    using assms(2,3) by simp_all
  then show "stored_records h2 = stored_records h"
    by (simp add: doc_summarize_trace doc_generate_embedding_trace)
qed

lemma ingest_summarize:
  "doc_summarize_text_with_llm ingest_world h seg p =
     (Inr (JStr seg), h @ [ChatCall (doc_summary_request seg p)])"
  by (rule doc_summarize_fallback [where e = ConnectionError])
     (simp_all add: ingest_world_def embedding_world_def silent_world_def reply_summary_def)

lemma ingest_embedding:
  "doc_generate_embedding ingest_world h x =
     (Inr (JArr [JNum 1, JNum 2]),
      h @ [EmbeddingsCall (embedding_request (ascii ''theepicdev/nomic-embed-text:v1.5-q6_K'') x)])"
  by (simp add: doc_generate_embedding_def Let_def ingest_world_def embedding_world_def
        reply_embedding_def ascii_def)

lemma empty_embedding:
  "doc_generate_embedding (embedding_world (JArr [])) h x =
     (Inr (JArr []),
      h @ [EmbeddingsCall (embedding_request (ascii ''theepicdev/nomic-embed-text:v1.5-q6_K'') x)])"
  by (simp add: doc_generate_embedding_def Let_def embedding_world_reply)

lemma empty_embedding_summarize:
  "doc_summarize_text_with_llm (embedding_world e) h seg p =
     (Inr (JStr seg), h @ [ChatCall (doc_summary_request seg p)])"
  by (rule doc_summarize_fallback [where e = ConnectionError])
     (simp_all add: embedding_world_def silent_world_def reply_summary_def)

lemma blank_examples:
  "\<not> is_blank (ascii ''ab'')" "is_blank (ascii ''  '')" "\<not> is_blank (ascii ''cd'')"
  by (simp_all add: is_blank_iff ascii_def py_isspace_def)

lemma ingest_insert:
  "insert_api ingest_world h e t = (if filter is_insert_call h = [] then Some StoreError else None)"
  by (simp add: ingest_world_def)

lemma process_segments_summary_raises:
  assumes "\<not> is_blank seg"
    "reply_summary (chat_api w h (doc_summary_request seg prompt)) = Inl e"
    "\<not> is_RequestException e"
  shows "doc_process_segments w prompt (seg # rest) h =
           (Some e, h @ [ChatCall (doc_summary_request seg prompt)])"
  using assms by (simp add: doc_summarize_text_with_llm_def Let_def)

lemma segment_loop_steps:
  "(reply_summary (chat_api w h (doc_summary_request seg prompt)) = Inl e \<and> is_RequestException e
      \<longrightarrow> doc_summarize_text_with_llm w h seg prompt =
            (Inr (JStr seg), h @ [ChatCall (doc_summary_request seg prompt)]))
   \<and> (\<not> is_blank seg
        \<and> doc_summarize_text_with_llm w h seg prompt = (Inr s, h1)
        \<and> doc_generate_embedding w h1 s = (Inr emb, h2)
        \<and> truthy emb \<and> is_list emb
      \<longrightarrow> doc_process_segments w prompt (seg # rest) h =
            doc_process_segments w prompt rest
              (h2 @ [InsertCall emb s (insert_api w h2 emb s = None)]))
   \<and> (\<not> is_blank seg
        \<and> doc_summarize_text_with_llm w h seg prompt = (Inr (JStr t), h1)
        \<and> doc_generate_embedding w h1 (JStr t) = (Inr emb, h2)
        \<and> \<not> (truthy emb \<and> is_list emb)
      \<longrightarrow> doc_process_segments w prompt (seg # rest) h = doc_process_segments w prompt rest h2
          \<and> stored_records h2 = stored_records h)"
proof (intro conjI impI)
  assume "reply_summary (chat_api w h (doc_summary_request seg prompt)) = Inl e \<and> is_RequestException e"
  then show "doc_summarize_text_with_llm w h seg prompt =
            (Inr (JStr seg), h @ [ChatCall (doc_summary_request seg prompt)])"
    by (simp add: doc_summarize_fallback)
next
  assume "\<not> is_blank seg
        \<and> doc_summarize_text_with_llm w h seg prompt = (Inr s, h1)
        \<and> doc_generate_embedding w h1 s = (Inr emb, h2)
        \<and> truthy emb \<and> is_list emb"
  then have "\<not> is_blank seg" "doc_summarize_text_with_llm w h seg prompt = (Inr s, h1)"
    "doc_generate_embedding w h1 s = (Inr emb, h2)" "truthy emb \<and> is_list emb"
    by simp_all
  then show "doc_process_segments w prompt (seg # rest) h =
            doc_process_segments w prompt rest
              (h2 @ [InsertCall emb s (insert_api w h2 emb s = None)])"
    by (rule process_segments_insert)
next
  assume "\<not> is_blank seg
        \<and> doc_summarize_text_with_llm w h seg prompt = (Inr (JStr t), h1)
        \<and> doc_generate_embedding w h1 (JStr t) = (Inr emb, h2)
        \<and> \<not> (truthy emb \<and> is_list emb)"
  then have a: "\<not> is_blank seg" "doc_summarize_text_with_llm w h seg prompt = (Inr (JStr t), h1)"
    "doc_generate_embedding w h1 (JStr t) = (Inr emb, h2)" "\<not> (truthy emb \<and> is_list emb)"
    by simp_all
  from a show "doc_process_segments w prompt (seg # rest) h = doc_process_segments w prompt rest h2"
    by (rule process_segments_skip(1))
  from a show "stored_records h2 = stored_records h"
    by (rule process_segments_skip(2))
qed

lemma segment_loop_example:
  "fst (doc_summarize_text_with_llm silent_world [] (ascii ''ab'') (ascii ''p''))
     = Inr (JStr (ascii ''ab''))
   \<and> fst (doc_process_segments ingest_world (ascii ''p'')
            [ascii ''ab'', ascii ''  '', ascii ''cd''] []) = None
   \<and> stored_records (snd (doc_process_segments ingest_world (ascii ''p'')
            [ascii ''ab'', ascii ''  '', ascii ''cd''] []))
     = [(JArr [JNum 1, JNum 2], JStr (ascii ''cd''))]
   \<and> fst (doc_process_segments (embedding_world (JArr [])) (ascii ''p'') [ascii ''ab''] []) = None
   \<and> stored_records (snd (doc_process_segments (embedding_world (JArr [])) (ascii ''p'')
            [ascii ''ab''] [])) = []"
proof -
  let ?p = "ascii ''p''" and ?ab = "ascii ''ab''"
  let ?h1 = "[ChatCall (doc_summary_request ?ab ?p)]"
  let ?h2 = "?h1 @ [EmbeddingsCall
      (embedding_request (ascii ''theepicdev/nomic-embed-text:v1.5-q6_K'') (JStr ?ab))]"
  have 1: "doc_summarize_text_with_llm silent_world [] ?ab ?p =
      (Inr (JStr ?ab), [] @ [ChatCall (doc_summary_request ?ab ?p)])"
    by (rule segment_loop_steps [where e = ConnectionError, THEN conjunct1, THEN mp])
       (simp add: silent_world_def reply_summary_def)
  have 2: "doc_process_segments ingest_world ?p (?ab # [ascii ''  '', ascii ''cd'']) [] =
      doc_process_segments ingest_world ?p [ascii ''  '', ascii ''cd'']
        (?h2 @ [InsertCall (JArr [JNum 1, JNum 2]) (JStr ?ab)
                  (insert_api ingest_world ?h2 (JArr [JNum 1, JNum 2]) (JStr ?ab) = None)])"
    by (rule segment_loop_steps [where ?h1.0 = ?h1, THEN conjunct2, THEN conjunct1, THEN mp])
       (simp add: blank_examples ingest_summarize ingest_embedding)
  have 3: "doc_process_segments (embedding_world (JArr [])) ?p (?ab # []) [] =
             doc_process_segments (embedding_world (JArr [])) ?p [] ?h2
           \<and> stored_records ?h2 = stored_records []"
    by (rule segment_loop_steps [where ?h1.0 = ?h1 and t = ?ab and emb = "JArr []",
          THEN conjunct2, THEN conjunct2, THEN mp])
       (simp add: blank_examples empty_embedding empty_embedding_summarize)
  have 4: "doc_process_segments ingest_world ?p [ascii ''  '', ascii ''cd''] h =
             (None, h @ [ChatCall (doc_summary_request (ascii ''cd'') ?p),
                         EmbeddingsCall (embedding_request
                           (ascii ''theepicdev/nomic-embed-text:v1.5-q6_K'') (JStr (ascii ''cd''))),
                         InsertCall (JArr [JNum 1, JNum 2]) (JStr (ascii ''cd''))
                           (filter is_insert_call h \<noteq> [])])" for h
    by (simp add: blank_examples ingest_summarize ingest_embedding ingest_insert)
  have 5: "fst (doc_process_segments ingest_world ?p [?ab, ascii ''  '', ascii ''cd''] []) = None
      \<and> stored_records (snd (doc_process_segments ingest_world ?p
            [?ab, ascii ''  '', ascii ''cd''] []))
          = [(JArr [JNum 1, JNum 2], JStr (ascii ''cd''))]"
    unfolding 2 4 by (simp add: ingest_insert)
  have 6: "fst (doc_process_segments (embedding_world (JArr [])) ?p [?ab] []) = None
      \<and> stored_records (snd (doc_process_segments (embedding_world (JArr [])) ?p [?ab] [])) = []"
    unfolding 3 [THEN conjunct1] by simp
  show ?thesis
    using 1 5 6 by simp
qed

lemma no_choices_summary:
  "reply_summary (chat_api no_choices_world h req) = Inl IndexError"
  by (simp add: no_choices_world_def reply_summary_def ascii_def)

lemma segments_abcd: "segments_of (ascii ''abcd'') 2 = Inr [ascii ''ab'', ascii ''cd'']"
proof -
  have "segments_of (ascii ''abcd'') (int 2) =
      Inr (map (\<lambda>k. take 2 (drop (k * 2) (ascii ''abcd''))) [0 ..< (length (ascii ''abcd'') + 2 - 1) div 2])"
    by (rule segments_of_pos) simp
  moreover have "(length (ascii ''abcd'') + 2 - 1) div 2 = Suc (Suc 0)"
    by (simp add: ascii_def)
  ultimately show ?thesis
    by (simp add: ascii_def)
qed

section \<open>Claims\<close>

text \<open>
  Claim C1 says that \<open>pipe\<close> never lets an exception out. It does in all three
  variants. In RAGpipeline.py a search that raises leaves \<open>pipe\<close>, because retrieval
  is called before the \<open>try\<close>; in pipelinewithHYDE.py so does a failed request for the
  hypothetical answer; and in each variant, pipelinewithsupervision.py included, the
  banner \<open>body["user"]["name"]\<close> is printed before the \<open>try\<close> and raises
  \<open>KeyError\<close> on a body whose \<open>user\<close> has no name.
\<close>

theorem pipe_propagates_exception:
  "fst (rag_pipe example_valves silent_world [] (ascii ''q'') (ascii ''m'') []
          [(ascii ''stream'', JBool False)]) = Inl StoreError
   \<and> fst (hyde_pipe example_valves silent_world [] (ascii ''q'') (ascii ''m'') []
          [(ascii ''stream'', JBool False)]) = Inl ConnectionError
   \<and> fst (sup_pipe example_valves silent_world [] (ascii ''q'') (ascii ''m'') []
          [(ascii ''user'', JObj [])]) = Inl KeyError"
proof (intro conjI)
  have "fst (rag_retrieve_relevant_information example_valves silent_world [] (ascii ''q''))
          = Inl StoreError"
    by (rule rag_retrieve_search_raises) (simp add: silent_world_def)
  then show "fst (rag_pipe example_valves silent_world [] (ascii ''q'') (ascii ''m'') []
          [(ascii ''stream'', JBool False)]) = Inl StoreError"
    by (simp add: rag_pipe_unfold Let_def)
  have "fst (hyde_generate_hypothetical_answer example_valves silent_world h (ascii ''q''))
          = Inl ConnectionError" for h
    by (simp add: hyde_generate_hypothetical_answer_def Let_def silent_world_def)
  then have "fst (hyde_retrieve_relevant_information example_valves silent_world [] (ascii ''q''))
          = Inl ConnectionError"
    by (simp add: hyde_retrieve_relevant_information_def Let_def case_prod_unfold
          split: sum.splits prod.splits)
  then show "fst (hyde_pipe example_valves silent_world [] (ascii ''q'') (ascii ''m'') []
          [(ascii ''stream'', JBool False)]) = Inl ConnectionError"
    by (simp add: hyde_pipe_unfold Let_def)
  have "print_user (dict_set (ascii ''messages'') (JArr [m]) [(ascii ''user'', JObj [])])
          = Some KeyError" for m
    by (simp add: print_user_def ascii_def)
  then show "fst (sup_pipe example_valves silent_world [] (ascii ''q'') (ascii ''m'') []
          [(ascii ''user'', JObj [])]) = Inl KeyError"
    by (simp add: sup_pipe_unfold Let_def)
qed




text \<open>
  Claim C3. With five retries, whatever the services answer, \<open>pipe\<close> issues at most
  five generation calls. The attempts of a call are made on the body that \<open>pipe\<close>
  has prepared and from the trace that retrieval has left. When the banner is
  printed (the body names no user, or one with a name and an id): if the first
  \<open>k - 1\<close> answers are rejected by the supervisor and the \<open>k\<close>-th (\<open>1 \<le> k \<le> 5\<close>) is
  approved, \<open>pipe\<close> returns the \<open>k\<close>-th answer after exactly \<open>k\<close> generation calls, and
  its last call is the question to the supervisor about that answer; if five answers
  are rejected, \<open>pipe\<close> returns the exhaustion message after exactly five generation
  calls. Whatever \<open>pipe\<close> returns is a string: the exhaustion message, an error
  string, or an answer on which the supervisor's reply contained the keyword.
\<close>

theorem supervised_retry_bound:
  "let r = sup_retrieve_relevant_information v w h um;
       b = dict_set (ascii ''messages'')
             (JArr [JObj [(ascii ''role'', JStr (ascii ''user'')),
                          (ascii ''content'',
                           JStr (sup_combine_user_message_with_context v um (fst r)))]])
             body;
       outcome = spec_outcome v w um b (snd r);
       R = sup_pipe v w h um mid msgs body
   in generation_calls (snd (snd R)) \<le> generation_calls h + 5
      \<and> (print_user body = None \<and> 1 \<le> k \<and> k \<le> 5
           \<and> (\<forall>j<k - 1. is_rejected (outcome j)) \<and> outcome (k - 1) = Approved ans
         \<longrightarrow> fst R = Inr (VStr ans)
             \<and> generation_calls (snd (snd R)) = generation_calls h + k
             \<and> last (snd (snd R)) = CompletionsCall (supervision_request v um ans))
      \<and> (print_user body = None \<and> (\<forall>j<5. is_rejected (outcome j))
         \<longrightarrow> fst R = Inr (VStr exhausted_message)
             \<and> generation_calls (snd (snd R)) = generation_calls h + 5)
      \<and> (\<forall>s. fst R = Inr (VStr s)
           \<longrightarrow> s = exhausted_message \<or> (\<exists>e. s = error_string w e)
               \<or> (\<exists>j<5. outcome j = Approved s))
      \<and> (\<forall>x. fst R = Inr x \<longrightarrow> (\<exists>s. x = VStr s))"
proof -
  define r where "r = sup_retrieve_relevant_information v w h um"
  define b where "b = dict_set (ascii ''messages'')
      (JArr [JObj [(ascii ''role'', JStr (ascii ''user'')),
                   (ascii ''content'', JStr (sup_combine_user_message_with_context v um (fst r)))]])
      body"
  define outcome where "outcome = spec_outcome v w um b (snd r)"
  define R where "R = sup_pipe v w h um mid msgs body"
  have oc: "\<And>j. attempt_outcome v w um b (snd r) j = outcome j"
    by (simp add: outcome_def attempt_outcome_spec)
  have calls0: "generation_calls (snd r) = generation_calls h"
    unfolding r_def by (rule retrieve_calls)
  have ok: "print_user body = None \<Longrightarrow>
      R = (Inr (VStr (fst (sup_pipe_try v w um b (snd r)))), b, snd (sup_pipe_try v w um b (snd r)))"
    unfolding R_def b_def r_def by (rule sup_pipe_cases(1))
  have bad: "\<And>e. print_user body = Some e \<Longrightarrow> R = (Inl e, b, snd r)"
    unfolding R_def b_def r_def by (rule sup_pipe_cases(2))
  have 1: "generation_calls (snd (snd R)) \<le> generation_calls h + 5"
    unfolding R_def using pipe_calls [of v w h um mid msgs body] by (simp add: max_retries_def)
  have 2: "fst R = Inr (VStr ans) \<and> generation_calls (snd (snd R)) = generation_calls h + k
             \<and> last (snd (snd R)) = CompletionsCall (supervision_request v um ans)"
    if a: "print_user body = None \<and> 1 \<le> k \<and> k \<le> 5
           \<and> (\<forall>j<k - 1. is_rejected (outcome j)) \<and> outcome (k - 1) = Approved ans"
  proof -
    from a have k: "k - 1 < max_retries" "Suc (k - 1) = k" unfolding max_retries_def by arith+
    have rej: "\<forall>j<k - 1. is_rejected (attempt_outcome v w um b (snd r) j)"
      using a by (simp add: oc)
    have app: "attempt_outcome v w um b (snd r) (k - 1) = Approved ans"
      using a by (simp add: oc)
    have "sup_pipe_loop v w um b 0 (snd r) = (Inr ans, after_attempts v w um b (Suc (k - 1)) (snd r))"
      by (rule loop_first_approved [OF k(1) rej app])
    then have t: "sup_pipe_try v w um b (snd r) = (ans, after_attempts v w um b (Suc (k - 1)) (snd r))"
      by (simp add: sup_pipe_try_def)
    have l: "last (after_attempts v w um b (Suc (k - 1)) (snd r))
               = CompletionsCall (supervision_request v um ans)"
      by (rule approved_last [OF app])
    have c: "generation_calls (after_attempts v w um b (Suc (k - 1)) (snd r)) = generation_calls h + k"
      using k(2) by (simp add: after_attempts_calls calls0)
    from a have "print_user body = None" by simp
    from ok [OF this] l c show ?thesis by (simp add: t)
  qed
  have 3: "fst R = Inr (VStr exhausted_message)
             \<and> generation_calls (snd (snd R)) = generation_calls h + 5"
    if a: "print_user body = None \<and> (\<forall>j<5. is_rejected (outcome j))"
  proof -
    have "\<forall>j<max_retries. is_rejected (attempt_outcome v w um b (snd r) j)"
      using a by (simp add: oc max_retries_def)
    then have "sup_pipe_loop v w um b 0 (snd r) =
        (Inr exhausted_message, after_attempts v w um b max_retries (snd r))"
      by (rule loop_all_rejected)
    then have t: "sup_pipe_try v w um b (snd r) =
        (exhausted_message, after_attempts v w um b max_retries (snd r))"
      by (simp add: sup_pipe_try_def)
    from a have "print_user body = None" by simp
    from ok [OF this] show ?thesis
      by (simp add: t after_attempts_calls calls0 max_retries_def)
  qed
  have 4: "s = exhausted_message \<or> (\<exists>e. s = error_string w e) \<or> (\<exists>j<5. outcome j = Approved s)"
    if a: "fst R = Inr (VStr s)" for s
  proof (cases "print_user body")
    case None
    from ok [OF None] a have s: "s = fst (sup_pipe_try v w um b (snd r))" by simp
    show ?thesis
      using pipe_try_outcomes [of v w um b "snd r"] unfolding s [symmetric] oc max_retries_def
      by blast
  next
    case (Some e)
    from bad [OF Some] a show ?thesis by simp
  qed
  have 5: "\<exists>s. x = VStr s" if a: "fst R = Inr x" for x
  proof (cases "print_user body")
    case None
    from ok [OF None] a show ?thesis by auto
  next
    case (Some e)
    from bad [OF Some] a show ?thesis by simp
  qed
  have "generation_calls (snd (snd R)) \<le> generation_calls h + 5
      \<and> (print_user body = None \<and> 1 \<le> k \<and> k \<le> 5
           \<and> (\<forall>j<k - 1. is_rejected (outcome j)) \<and> outcome (k - 1) = Approved ans
         \<longrightarrow> fst R = Inr (VStr ans)
             \<and> generation_calls (snd (snd R)) = generation_calls h + k
             \<and> last (snd (snd R)) = CompletionsCall (supervision_request v um ans))
      \<and> (print_user body = None \<and> (\<forall>j<5. is_rejected (outcome j))
         \<longrightarrow> fst R = Inr (VStr exhausted_message)
             \<and> generation_calls (snd (snd R)) = generation_calls h + 5)
      \<and> (\<forall>s. fst R = Inr (VStr s)
           \<longrightarrow> s = exhausted_message \<or> (\<exists>e. s = error_string w e)
               \<or> (\<exists>j<5. outcome j = Approved s))
      \<and> (\<forall>x. fst R = Inr x \<longrightarrow> (\<exists>s. x = VStr s))"
    using 1 2 3 4 5 by blast
  then show ?thesis
    unfolding Let_def R_def outcome_def b_def r_def .
qed

theorem supervised_retry_bound_witness:
  "fst (sup_pipe example_valves third_time_world [] (ascii ''q'') (ascii ''m'') []
          [(ascii ''stream'', JBool True)]) = Inr (VStr (ascii ''Hello''))
   \<and> generation_calls (snd (snd (sup_pipe example_valves third_time_world [] (ascii ''q'')
          (ascii ''m'') [] [(ascii ''stream'', JBool True)]))) = 3
   \<and> last (snd (snd (sup_pipe example_valves third_time_world [] (ascii ''q'')
          (ascii ''m'') [] [(ascii ''stream'', JBool True)])))
       = CompletionsCall (JObj [(ascii ''model'', JStr (ascii ''llm'')),
           (ascii ''prompt'',
            JStr (ascii ''judge'' @ [10] @ label_sup_question @ ascii ''q'' @ [10]
                  @ label_sup_answer @ ascii ''Hello'' @ [10] @ sup_request_verdict))])
   \<and> fst (sup_pipe example_valves never_world [] (ascii ''q'') (ascii ''m'') []
          [(ascii ''stream'', JBool True)]) = Inr (VStr exhausted_message)
   \<and> generation_calls (snd (snd (sup_pipe example_valves never_world [] (ascii ''q'')
          (ascii ''m'') [] [(ascii ''stream'', JBool True)]))) = 5"
proof -
  let ?body = "[(ascii ''stream'', JBool True)]"
  have banner: "print_user ?body = None"
    by (simp add: print_user_def ascii_def)
  have o3: "spec_outcome example_valves third_time_world um b
              (snd (sup_retrieve_relevant_information example_valves third_time_world [] um)) j
            = (if j = 2 then Approved (ascii ''Hello'') else Rejected (ascii ''Hello''))" for um b j
    unfolding attempt_outcome_spec [symmetric] by (simp add: third_time_outcome retrieve_calls)
  have o5: "spec_outcome example_valves never_world um b h j = Rejected (ascii ''Hello'')"
    for um b h j
    unfolding attempt_outcome_spec [symmetric] by (simp add: never_outcome)
  have a: "fst (sup_pipe example_valves third_time_world [] (ascii ''q'') (ascii ''m'') [] ?body)
        = Inr (VStr (ascii ''Hello''))
     \<and> generation_calls (snd (snd (sup_pipe example_valves third_time_world [] (ascii ''q'')
          (ascii ''m'') [] ?body))) = generation_calls [] + 3
     \<and> last (snd (snd (sup_pipe example_valves third_time_world [] (ascii ''q'')
          (ascii ''m'') [] ?body)))
        = CompletionsCall (supervision_request example_valves (ascii ''q'') (ascii ''Hello''))"
    by (rule supervised_retry_bound [where v = example_valves and w = third_time_world
          and h = "[]" and um = "ascii ''q''" and mid = "ascii ''m''" and msgs = "[]"
          and body = ?body and k = 3 and ans = "ascii ''Hello''",
          unfolded Let_def, THEN conjunct2, THEN conjunct1, THEN mp])
       (simp add: banner o3)
  have b: "fst (sup_pipe example_valves never_world [] (ascii ''q'') (ascii ''m'') [] ?body)
        = Inr (VStr exhausted_message)
     \<and> generation_calls (snd (snd (sup_pipe example_valves never_world [] (ascii ''q'')
          (ascii ''m'') [] ?body))) = generation_calls [] + 5"
    by (rule supervised_retry_bound [where v = example_valves and w = never_world
          and h = "[]" and um = "ascii ''q''" and mid = "ascii ''m''" and msgs = "[]"
          and body = ?body,
          unfolded Let_def, THEN conjunct2, THEN conjunct2, THEN conjunct1, THEN mp])
       (simp add: banner o5)
  have req: "supervision_request example_valves (ascii ''q'') (ascii ''Hello'')
      = JObj [(ascii ''model'', JStr (ascii ''llm'')),
           (ascii ''prompt'',
            JStr (ascii ''judge'' @ [10] @ label_sup_question @ ascii ''q'' @ [10]
                  @ label_sup_answer @ ascii ''Hello'' @ [10] @ sup_request_verdict))]"
    by (simp add: supervision_request_def example_valves_def)
  show ?thesis using a b by (simp add: req)
qed

text \<open>
  Claim C4 says that the segments found for both query vectors are candidates. The
  HyDE \<open>retrieve_relevant_information\<close> does send both vectors in one search, but it
  reads \<open>results[0]\<close> only: on a store that answers the user vector with the segment
  \<open>A\<close> and the hypothetical vector with the segment \<open>B\<close>, it returns \<open>A\<close> alone.
\<close>

theorem hyde_second_vector_dropped:
  "fst (hyde_retrieve_relevant_information example_valves hyde_two_hits_world [] (ascii ''q''))
     = Inr [ascii ''A'']
   \<and> ascii ''B'' \<notin> set [ascii ''A'']
   \<and> last (snd (hyde_retrieve_relevant_information example_valves hyde_two_hits_world []
                  (ascii ''q'')))
     = SearchCall \<lparr>sr_data = [JArr [JNum 0], JArr [JNum 2]], sr_metric_type = ascii ''IP'',
                   sr_nprobe = 10, sr_limit = 5\<rparr>"
proof -
  have s: "search_api hyde_two_hits_world = (\<lambda>h req. Inr [[ascii ''A''], [ascii ''B'']])"
    by (simp add: hyde_two_hits_world_def)
  have e: "\<And>h t. hyde_generate_embedding example_valves hyde_two_hits_world h t =
            (JArr [JNum (real (length h))],
             h @ [EmbeddingsCall (embedding_request_dim (EMBEDDING_MODEL example_valves) (JStr t))])"
    by (simp add: hyde_generate_embedding_def Let_def hyde_two_hits_world_def
          hyde_failing_world_def reply_embedding_def silent_world_def ascii_def)
  have a: "\<And>h. hyde_generate_hypothetical_answer example_valves hyde_two_hits_world h (ascii ''q'')
             = (Inr (ascii ''guess''),
                h @ [CompletionsCall (JObj [(ascii ''model'', JStr (LLM_MODEL example_valves)),
                       (ascii ''prompt'', JStr (hypothetical_answer_instruction @ ascii ''q''))])])"
    using hyde_answer_guess(2) [of example_valves _ "ascii ''q''"]
    by (simp add: hyde_generate_hypothetical_answer_def Let_def)
  show ?thesis
    by (simp add: hyde_retrieve_relevant_information_def Let_def e a s)
       (simp add: ascii_def)
qed

text \<open>
  Claim C5 says that a search that raises gives the empty list in every variant. It
  does in pipelinewithsupervision.py. In RAGpipeline.py and pipelinewithHYDE.py the
  search stands outside any \<open>try\<close>: run on a store whose search raises, both
  \<open>retrieve_relevant_information\<close> let the exception out.
\<close>

theorem retrieve_search_failure_propagates:
  "fst (rag_retrieve_relevant_information example_valves silent_world [] (ascii ''q''))
     = Inl StoreError
   \<and> fst (hyde_retrieve_relevant_information example_valves hyde_failing_world [] (ascii ''q''))
     = Inl StoreError
   \<and> fst (sup_retrieve_relevant_information example_valves silent_world [] (ascii ''q'')) = []"
proof (intro conjI)
  show "fst (rag_retrieve_relevant_information example_valves silent_world [] (ascii ''q''))
     = Inl StoreError"
    by (rule rag_retrieve_search_raises) (simp add: silent_world_def)
  show "fst (sup_retrieve_relevant_information example_valves silent_world [] (ascii ''q'')) = []"
    by (rule sup_retrieve_search_raises [where e = StoreError]) (simp add: silent_world_def)
  have "search_api hyde_failing_world = (\<lambda>h req. Inl StoreError)"
    by (simp add: hyde_failing_world_def silent_world_def)
  then show "fst (hyde_retrieve_relevant_information example_valves hyde_failing_world [] (ascii ''q''))
     = Inl StoreError"
    using hyde_answer_guess(1) [of example_valves]
    by (simp add: hyde_retrieve_relevant_information_def Let_def case_prod_unfold
          split: sum.splits prod.splits)
qed

text \<open>
  Claim C6. For every text \<open>T\<close> and every segment length \<open>L > 0\<close> the chunker of
  \<open>process_file\<close> returns (it does not raise) the slices \<open>T[0:L]\<close>, \<open>T[L:2L]\<close>, ...:
  there are \<open>ceil (len T / L)\<close> of them, the \<open>k\<close>-th is the \<open>L\<close> characters from position
  \<open>k * L\<close> on, their concatenation is \<open>T\<close>, each is non-empty and at most \<open>L\<close> long, and a
  segment that passes the blank filter holds a character that is not whitespace. The
  segments are a function of \<open>(T, L)\<close> alone.
\<close>

theorem chunker_slices:
  assumes "0 < L"
  shows "\<exists>segs. segments_of T L = Inr segs
           \<and> length segs = (length T + nat L - 1) div nat L
           \<and> (\<forall>k < length segs. segs ! k = take (nat L) (drop (k * nat L) T))
           \<and> concat segs = T
           \<and> (\<forall>s \<in> set segs. s \<noteq> [] \<and> length s \<le> nat L)
           \<and> (\<forall>s \<in> set segs. \<not> is_blank s \<longrightarrow> (\<exists>c \<in> set s. \<not> py_isspace c))"
proof -
  define n where "n = nat L"
  define m where "m = (length T + n - 1) div n"
  define segs where "segs = map (\<lambda>k. take n (drop (k * n) T)) [0 ..< m]"
  have n: "0 < n" "L = int n" using assms by (simp_all add: n_def)
  have 1: "segments_of T L = Inr segs"
    unfolding segs_def m_def n(2) by (rule segments_of_pos [OF n(1)])
  have 2: "length segs = m" by (simp add: segs_def)
  have 3: "\<forall>k < length segs. segs ! k = take n (drop (k * n) T)"
    by (simp add: segs_def)
  have 4: "concat segs = T"
    unfolding segs_def m_def by (rule concat_slices) (rule ceil_div_covers [OF n(1)])
  have 5: "\<forall>s \<in> set segs. s \<noteq> [] \<and> length s \<le> n"
  proof
    fix s assume "s \<in> set segs"
    then obtain k where k: "k < m" "s = take n (drop (k * n) T)"
      by (auto simp: segs_def)
    have "s \<noteq> []"
      unfolding k(2) by (rule slice_nonempty [OF n(1)]) (use k(1) in \<open>simp add: m_def\<close>)
    moreover have "length s \<le> n" by (simp add: k(2))
    ultimately show "s \<noteq> [] \<and> length s \<le> n" ..
  qed
  have 6: "\<forall>s \<in> set segs. \<not> is_blank s \<longrightarrow> (\<exists>c \<in> set s. \<not> py_isspace c)"
    by (simp add: is_blank_iff)
  have "segments_of T L = Inr segs
           \<and> length segs = m
           \<and> (\<forall>k < length segs. segs ! k = take n (drop (k * n) T))
           \<and> concat segs = T
           \<and> (\<forall>s \<in> set segs. s \<noteq> [] \<and> length s \<le> n)
           \<and> (\<forall>s \<in> set segs. \<not> is_blank s \<longrightarrow> (\<exists>c \<in> set s. \<not> py_isspace c))"
    using 1 2 3 4 5 6 by (intro conjI)
  then show ?thesis unfolding m_def n_def by (rule exI)
qed


theorem chunker_slices_witness:
  "(0::int) < 4
   \<and> segments_of (ascii ''A. B. C.'') 4 = Inr [ascii ''A. B'', ascii ''. C.'']
   \<and> concat [ascii ''A. B'', ascii ''. C.''] = ascii ''A. B. C.''
   \<and> \<not> is_blank (ascii ''A. B'') \<and> \<not> is_blank (ascii ''. C.'')"
proof -
  have h: "(0::int) < 4" by simp
  obtain segs where s: "segments_of (ascii ''A. B. C.'') 4 = Inr segs"
      and l: "length segs = (length (ascii ''A. B. C.'') + nat 4 - 1) div nat 4"
      and n: "\<forall>k < length segs. segs ! k = take (nat 4) (drop (k * nat 4) (ascii ''A. B. C.''))"
    using chunker_slices [OF h, of "ascii ''A. B. C.''"] by blast
  have len: "length segs = 2" using l by (simp add: ascii_def)
  then obtain a b where ab: "segs = [a, b]"
    by (cases segs; cases "tl segs"; cases "tl (tl segs)") auto
  have "a = ascii ''A. B''"
    using n [rule_format, of 0] by (simp add: ab ascii_def)
  moreover have "b = ascii ''. C.''"
    using n [rule_format, of 1] by (simp add: ab ascii_def)
  ultimately have "segs = [ascii ''A. B'', ascii ''. C.'']" using ab by simp
  then show ?thesis
    using s by (simp add: ascii_def is_blank_def py_strip_def py_isspace_def)
qed

text \<open>
  Claim C7 says that a failed summarization falls back to the segment's own text and
  that a failure on one segment does not keep the remaining segments from being
  processed. \<open>summarize_text_with_llm\<close> handles \<open>RequestException\<close> only. On a reply
  with status 200 whose body has no \<open>choices\<close>, \<open>.get("choices", [])[0]\<close> raises
  \<open>IndexError\<close>, which leaves the function and the segment loop and is logged by
  the outer handler of \<open>process_file\<close>: for the text \<open>abcd\<close> cut into \<open>ab\<close> and
  \<open>cd\<close>, the only call made is the summarization of \<open>ab\<close>; nothing is embedded or
  stored, and \<open>cd\<close> is never reached.
\<close>

theorem summary_failure_ends_document:
  "doc_process_file no_choices_world [] (Extracted (ascii ''abcd'')) 2 (ascii ''p'')
     = (Some IndexError, [ChatCall (doc_summary_request (ascii ''ab'') (ascii ''p''))])
   \<and> stored_records (snd (doc_process_file no_choices_world [] (Extracted (ascii ''abcd'')) 2
         (ascii ''p''))) = []
   \<and> doc_summarize_text_with_llm no_choices_world [] (ascii ''ab'') (ascii ''p'')
     = (Inl IndexError, [ChatCall (doc_summary_request (ascii ''ab'') (ascii ''p''))])"
proof -
  have nb: "\<not> is_blank (ascii ''ab'')"
    by (rule blank_examples(1))
  have ne: "\<not> is_RequestException IndexError" by simp
  have loop: "doc_process_segments no_choices_world (ascii ''p'') (ascii ''ab'' # [ascii ''cd'']) []
      = (Some IndexError, [] @ [ChatCall (doc_summary_request (ascii ''ab'') (ascii ''p''))])"
    by (rule process_segments_summary_raises [OF nb no_choices_summary ne])
  have whole: "doc_process_file no_choices_world [] (Extracted (ascii ''abcd'')) 2 (ascii ''p'')
     = (Some IndexError, [ChatCall (doc_summary_request (ascii ''ab'') (ascii ''p''))])"
    using loop by (simp add: doc_process_file_def segments_abcd)
  have summ: "doc_summarize_text_with_llm no_choices_world [] (ascii ''ab'') (ascii ''p'')
     = (Inl IndexError, [ChatCall (doc_summary_request (ascii ''ab'') (ascii ''p''))])"
    by (simp add: doc_summarize_text_with_llm_def Let_def no_choices_summary)
  show ?thesis
    by (simp add: whole summ)
qed

text \<open>
  Claim C8. A call of the supervised \<open>pipe\<close> leaves in the body's \<open>messages\<close> exactly
  one turn, of role \<open>user\<close>, whose content is the persona prompt, this call's user
  message and the contexts this call retrieved; every generation request the call
  sends carries the body with exactly that turn as its \<open>messages\<close>, and when the
  banner is printed at least one such request is sent. The same holds for
  RAGpipeline.py and pipelinewithHYDE.py when their retrieval returns. In every
  variant a call does the same, in result, body and requests, whatever the
  \<open>messages\<close> of the body it is given and whatever its \<open>model_id\<close> and \<open>messages\<close>
  arguments; so a call given the body that an earlier call left behaves as the call
  given the body that the earlier call was given, and nothing of the earlier call's
  contexts or answer is in its prompt.
\<close>

theorem pipe_stateless:
  "(let turn = JObj [(ascii ''role'', JStr (ascii ''user'')),
                     (ascii ''content'',
                      JStr (PROMPT v @ [10, 10] @ label_user_question @ [10, 10] @ um @ [10, 10]
                            @ label_learned_content
                            @ py_join [10] (fst (sup_retrieve_relevant_information v w h um))))];
        request = JObj (dict_set (ascii ''model'') (JStr (LLM_MODEL v))
                          (dict_set (ascii ''messages'') (JArr [turn]) body));
        R = sup_pipe v w h um mid msgs body
    in body_messages (fst (snd R)) = Some (JArr [turn])
       \<and> (\<exists>new. snd (snd R) = h @ new
             \<and> (\<forall>req. ChatCall req \<in> set new \<longrightarrow> req = request)
             \<and> (print_user body = None \<longrightarrow> ChatCall request \<in> set new))
       \<and> sup_pipe v w h um mid' msgs' (dict_set (ascii ''messages'') x body) = R
       \<and> sup_pipe v w h um mid msgs (fst (snd (sup_pipe v w h0 m1 mid1 msgs1 body))) = R)
   \<and> (fst (rag_retrieve_relevant_information v w h um) = Inr ctx
      \<longrightarrow> (let turn = JObj [(ascii ''role'', JStr (ascii ''user'')),
                           (ascii ''content'',
                            JStr (PROMPT v @ [10, 10] @ um @ [10, 10] @ py_join [10] ctx))];
               request = JObj (dict_set (ascii ''model'') (JStr (LLM_MODEL v))
                                 (dict_set (ascii ''messages'') (JArr [turn]) body));
               R = rag_pipe v w h um mid msgs body
           in body_messages (fst (snd R)) = Some (JArr [turn])
              \<and> (\<exists>new. snd (snd R) = h @ new
                    \<and> (\<forall>req. ChatCall req \<in> set new \<longrightarrow> req = request)
                    \<and> (print_user body = None \<longrightarrow> ChatCall request \<in> set new))))
   \<and> rag_pipe v w h um mid' msgs' (dict_set (ascii ''messages'') x body)
       = rag_pipe v w h um mid msgs body
   \<and> rag_pipe v w h um mid msgs (fst (snd (rag_pipe v w h0 m1 mid1 msgs1 body)))
       = rag_pipe v w h um mid msgs body
   \<and> (fst (hyde_retrieve_relevant_information v w h um) = Inr ctx
      \<longrightarrow> (let turn = JObj [(ascii ''role'', JStr (ascii ''user'')),
                           (ascii ''content'',
                            JStr (PROMPT v @ [10, 10] @ label_user_question @ [10, 10] @ um
                                  @ [10, 10] @ label_learned_content @ py_join [10] ctx))];
               request = JObj (dict_set (ascii ''model'') (JStr (LLM_MODEL v))
                                 (dict_set (ascii ''messages'') (JArr [turn]) body));
               R = hyde_pipe v w h um mid msgs body
           in body_messages (fst (snd R)) = Some (JArr [turn])
              \<and> (\<exists>new. snd (snd R) = h @ new
                    \<and> (\<forall>req. ChatCall req \<in> set new \<longrightarrow> req = request)
                    \<and> (print_user body = None \<longrightarrow> ChatCall request \<in> set new))))
   \<and> hyde_pipe v w h um mid' msgs' (dict_set (ascii ''messages'') x body)
       = hyde_pipe v w h um mid msgs body
   \<and> hyde_pipe v w h um mid msgs (fst (snd (hyde_pipe v w h0 m1 mid1 msgs1 body)))
       = hyde_pipe v w h um mid msgs body"
  unfolding Let_def
  by (intro conjI impI sup_pipe_requests rag_pipe_requests hyde_pipe_requests
        sup_pipe_same_messages rag_pipe_same_messages hyde_pipe_same_messages
        sup_pipe_after_call rag_pipe_after_call hyde_pipe_after_call)

theorem pipe_stateless_witness:
  "body_messages (fst (snd (sup_pipe example_valves third_time_world [] (ascii ''q'') (ascii ''m'')
       [] [(ascii ''messages'', JArr [JStr (ascii ''old turn'')]), (ascii ''stream'', JBool True)])))
     = Some (JArr [JObj [(ascii ''role'', JStr (ascii ''user'')),
                         (ascii ''content'',
                          JStr (ascii ''persona'' @ [10, 10] @ label_user_question @ [10, 10]
                                @ ascii ''q'' @ [10, 10] @ label_learned_content))]])
   \<and> ChatCall (JObj [(ascii ''messages'',
                      JArr [JObj [(ascii ''role'', JStr (ascii ''user'')),
                                  (ascii ''content'',
                                   JStr (ascii ''persona'' @ [10, 10] @ label_user_question
                                         @ [10, 10] @ ascii ''q'' @ [10, 10]
                                         @ label_learned_content))]]),
                     (ascii ''stream'', JBool True),
                     (ascii ''model'', JStr (ascii ''llm''))])
       \<in> set (snd (snd (sup_pipe example_valves third_time_world [] (ascii ''q'') (ascii ''m'')
            [] [(ascii ''messages'', JArr [JStr (ascii ''old turn'')]),
                (ascii ''stream'', JBool True)])))
   \<and> (let first = rag_pipe example_valves hyde_two_hits_world [] (ascii ''p'') (ascii ''m'') []
                     [(ascii ''stream'', JBool True)];
           second = rag_pipe example_valves hyde_two_hits_world (snd (snd first)) (ascii ''q'')
                      (ascii ''m'') [] (fst (snd first))
       in ChatCall (JObj [(ascii ''stream'', JBool True),
                          (ascii ''messages'',
                           JArr [JObj [(ascii ''role'', JStr (ascii ''user'')),
                                       (ascii ''content'',
                                        JStr (ascii ''persona'' @ [10, 10] @ ascii ''q''
                                              @ [10, 10] @ ascii ''A''))]]),
                          (ascii ''model'', JStr (ascii ''llm''))])
            \<in> set (snd (snd second)))"
proof -
  let ?b1 = "[(ascii ''messages'', JArr [JStr (ascii ''old turn'')]), (ascii ''stream'', JBool True)]"
  let ?b2 = "[(ascii ''stream'', JBool True)]"
  note sup = pipe_stateless [where v = example_valves and w = third_time_world and h = "[]"
      and um = "ascii ''q''" and mid = "ascii ''m''" and msgs = "[]" and body = ?b1,
      unfolded Let_def, THEN conjunct1]
  have s1: "body_messages (fst (snd (sup_pipe example_valves third_time_world [] (ascii ''q'')
       (ascii ''m'') [] ?b1)))
     = Some (JArr [JObj [(ascii ''role'', JStr (ascii ''user'')),
                         (ascii ''content'',
                          JStr (ascii ''persona'' @ [10, 10] @ label_user_question @ [10, 10]
                                @ ascii ''q'' @ [10, 10] @ label_learned_content))]])"
    using sup [THEN conjunct1] by (simp add: third_time_retrieve example_valves_fields)
  have s2: "ChatCall (JObj [(ascii ''messages'',
                      JArr [JObj [(ascii ''role'', JStr (ascii ''user'')),
                                  (ascii ''content'',
                                   JStr (ascii ''persona'' @ [10, 10] @ label_user_question
                                         @ [10, 10] @ ascii ''q'' @ [10, 10]
                                         @ label_learned_content))]]),
                     (ascii ''stream'', JBool True),
                     (ascii ''model'', JStr (ascii ''llm''))])
       \<in> set (snd (snd (sup_pipe example_valves third_time_world [] (ascii ''q'') (ascii ''m'')
            [] ?b1)))"
    using request_sent [OF sup [THEN conjunct2, THEN conjunct1] print_user_stream(2)]
    by (simp add: third_time_retrieve example_valves_fields ascii_def)
  define first where "first = rag_pipe example_valves hyde_two_hits_world [] (ascii ''p'')
      (ascii ''m'') [] ?b2"
  note rag = pipe_stateless [where v = example_valves and w = hyde_two_hits_world
      and h = "snd (snd first)" and um = "ascii ''q''" and mid = "ascii ''m''" and msgs = "[]"
      and body = ?b2 and ctx = "[ascii ''A'']" and ?h0.0 = "[]" and ?m1.0 = "ascii ''p''"
      and ?mid1.0 = "ascii ''m''" and ?msgs1.0 = "[]", unfolded Let_def, THEN conjunct2]
  have same: "rag_pipe example_valves hyde_two_hits_world (snd (snd first)) (ascii ''q'')
        (ascii ''m'') [] (fst (snd first))
      = rag_pipe example_valves hyde_two_hits_world (snd (snd first)) (ascii ''q'')
        (ascii ''m'') [] ?b2"
    using rag [THEN conjunct2, THEN conjunct2, THEN conjunct1] by (simp only: first_def)
  have s3: "ChatCall (JObj [(ascii ''stream'', JBool True),
                          (ascii ''messages'',
                           JArr [JObj [(ascii ''role'', JStr (ascii ''user'')),
                                       (ascii ''content'',
                                        JStr (ascii ''persona'' @ [10, 10] @ ascii ''q''
                                              @ [10, 10] @ ascii ''A''))]]),
                          (ascii ''model'', JStr (ascii ''llm''))])
      \<in> set (snd (snd (rag_pipe example_valves hyde_two_hits_world (snd (snd first)) (ascii ''q'')
            (ascii ''m'') [] (fst (snd first)))))"
    unfolding same
    using request_sent [OF rag [THEN conjunct1, THEN mp, OF two_hits_rag_retrieve, THEN conjunct2]
        print_user_stream(1)]
    by (simp add: example_valves_fields ascii_def)
  show ?thesis
    using s1 s2 s3 unfolding first_def Let_def by (intro conjI)
qed

text \<open>
  Claim C9, as amended. When no line before the first sentinel frame makes the stream
  loop raise anything but \<open>JSONDecodeError\<close> (each line decodes, \<open>json.loads\<close> returns
  or raises \<open>JSONDecodeError\<close>, and each parsed payload has a string at
  \<open>choices[0].delta.content\<close>), the answer assembled from an empty buffer is the
  concatenation, in order, of the fragments of the parseable \<open>data: \<close> frames before
  that sentinel. A frame on whose payload \<open>json.loads\<close> raises \<open>JSONDecodeError\<close> can be
  removed from any stream without changing the result. Two attempts that are sent
  the same lines assemble the same answer, whatever was called before and whatever
  the body holds.
\<close>

theorem stream_assembly:
  "((\<forall>l \<in> set (takeWhile (\<lambda>l. \<not> is_sentinel l) ls). line_fault loads l = None)
      \<longrightarrow> assemble_stream loads ls [] = Inr (spec_assembled loads ls))
   \<and> (data_payload l = Some p \<and> \<not> is_sentinel l \<and> loads p = Inl e \<and> is_JSONDecodeError e
      \<longrightarrow> assemble_stream loads (xs @ l # ys) acc = assemble_stream loads (xs @ ys) acc)
   \<and> (chat_api w h1 (JObj (dict_set (ascii ''model'') (JStr (LLM_MODEL v)) b1)) = Response ls j1
        \<and> chat_api w h2 (JObj (dict_set (ascii ''model'') (JStr (LLM_MODEL v)) b2)) = Response ls j2
      \<longrightarrow> attempt_answer (fst (sup_attempt v w h1 um1 b1))
            = attempt_answer (fst (sup_attempt v w h2 um2 b2)))"
proof (intro conjI impI)
  assume "\<forall>l \<in> set (takeWhile (\<lambda>l. \<not> is_sentinel l) ls). line_fault loads l = None"
  then show "assemble_stream loads ls [] = Inr (spec_assembled loads ls)"
    using assemble_stream_clean [of ls loads "[]"] by simp
next
  assume a: "data_payload l = Some p \<and> \<not> is_sentinel l \<and> loads p = Inl e \<and> is_JSONDecodeError e"
  then have "line_fault loads l = None" "frame_fragment loads l = None"
    using unparseable_frame [of l p loads e] by simp_all
  with a show "assemble_stream loads (xs @ l # ys) acc = assemble_stream loads (xs @ ys) acc"
    by (intro assemble_stream_skip) simp_all
next
  assume "chat_api w h1 (JObj (dict_set (ascii ''model'') (JStr (LLM_MODEL v)) b1)) = Response ls j1
        \<and> chat_api w h2 (JObj (dict_set (ascii ''model'') (JStr (LLM_MODEL v)) b2)) = Response ls j2"
  then show "attempt_answer (fst (sup_attempt v w h1 um1 b1))
            = attempt_answer (fst (sup_attempt v w h2 um2 b2))"
    by (simp add: attempt_answer_eq)
qed

theorem stream_assembly_witness:
  "assemble_stream toy_loads toy_stream [] = Inr (ascii ''Hello'')
   \<and> spec_assembled toy_loads toy_stream = ascii ''Hello''
   \<and> assemble_stream toy_loads toy_stream [] =
       assemble_stream toy_loads
         ([Utf8 (ascii ''data: A''), Utf8 []] @
          [Utf8 (ascii '': ping''), Utf8 (ascii ''data: B''), Utf8 (ascii ''data: [DONE]''),
           Utf8 (ascii ''data: A'')]) []
   \<and> attempt_answer (fst (sup_attempt example_valves
         third_time_world [] (ascii ''q'') []))
     = attempt_answer (fst (sup_attempt example_valves
         third_time_world
         [ChatCall JNull] (ascii ''r'') [(ascii ''stream'', JBool True)]))"
proof -
  let ?w = third_time_world
  let ?bad = "Utf8 (ascii ''data: {oops'')"
  have sent: "\<not> is_sentinel (Utf8 (ascii ''data: A''))" "\<not> is_sentinel (Utf8 [])"
      "\<not> is_sentinel ?bad" "\<not> is_sentinel (Utf8 (ascii '': ping''))"
      "\<not> is_sentinel (Utf8 (ascii ''data: B''))" "is_sentinel (Utf8 (ascii ''data: [DONE]''))"
    by (simp_all add: is_sentinel_def toy_lines strip_examples)
  have spec: "spec_assembled toy_loads toy_stream = ascii ''Hello''"
    by (simp add: spec_assembled_def toy_stream_def sent frame_fragment_def toy_lines
          toy_loads_values delta_content_chunk_with)
       (simp add: ascii_def)
  have clean: "\<forall>l \<in> set (takeWhile (\<lambda>l. \<not> is_sentinel l) toy_stream). line_fault toy_loads l = None"
    by (simp add: toy_stream_def sent line_fault_def toy_lines toy_loads_values
          delta_content_chunk_with)
  have 1: "assemble_stream toy_loads toy_stream [] = Inr (ascii ''Hello'')"
    using stream_assembly [where ls = toy_stream and loads = toy_loads, THEN conjunct1] clean spec
    by simp
  have 3: "assemble_stream toy_loads ([Utf8 (ascii ''data: A''), Utf8 []] @ ?bad #
             [Utf8 (ascii '': ping''), Utf8 (ascii ''data: B''), Utf8 (ascii ''data: [DONE]''),
              Utf8 (ascii ''data: A'')]) [] =
           assemble_stream toy_loads ([Utf8 (ascii ''data: A''), Utf8 []] @
             [Utf8 (ascii '': ping''), Utf8 (ascii ''data: B''), Utf8 (ascii ''data: [DONE]''),
              Utf8 (ascii ''data: A'')]) []"
  proof -
    have "data_payload ?bad = Some (ascii ''{oops'') \<and> \<not> is_sentinel ?bad
            \<and> toy_loads (ascii ''{oops'') = Inl JSONDecodeError \<and> is_JSONDecodeError JSONDecodeError"
      using sent(3) toy_lines(3) toy_loads_values(3) by simp
    then show ?thesis
      by (rule stream_assembly [where l = ?bad and p = "ascii ''{oops''" and loads = toy_loads
            and e = JSONDecodeError, THEN conjunct2, THEN conjunct1, THEN mp])
  qed
  have skipped: "assemble_stream toy_loads toy_stream [] =
           assemble_stream toy_loads ([Utf8 (ascii ''data: A''), Utf8 []] @
             [Utf8 (ascii '': ping''), Utf8 (ascii ''data: B''), Utf8 (ascii ''data: [DONE]''),
              Utf8 (ascii ''data: A'')]) []"
    using 3 by (simp add: toy_stream_def)
  have 4: "attempt_answer (fst (sup_attempt example_valves ?w [] (ascii ''q'') []))
     = attempt_answer (fst (sup_attempt example_valves ?w
         [ChatCall JNull] (ascii ''r'') [(ascii ''stream'', JBool True)]))"
    using stream_assembly [where w = ?w and ls = toy_stream and ?h1.0 = "[]" and v = example_valves
        and ?b1.0 = "[]" and ?j1.0 = None and ?h2.0 = "[ChatCall JNull]"
        and ?b2.0 = "[(ascii ''stream'', JBool True)]" and ?j2.0 = None
        and ?um1.0 = "ascii ''q''" and ?um2.0 = "ascii ''r''",
        THEN conjunct2, THEN conjunct2]
    by (simp add: third_time_world_def)
  show ?thesis using 1 spec skipped 4 by (intro conjI)
qed

text \<open>
  The claim as first stated fails on a frame that does not parse because
  \<open>json.loads\<close> raises \<open>RecursionError\<close>: the frame is not skipped, the loop ends with
  that exception, although the stream without the frame assembles \<open>lo\<close>. It fails
  also on a frame that parses to a chunk whose content is \<open>null\<close>: the loop ends
  with \<open>TypeError\<close>.
\<close>

theorem stream_assembly_counterexample:
  "assemble_stream toy_loads
     [Utf8 (ascii ''data: '' @ deep_payload), Utf8 (ascii ''data: B'')] [] = Inl RecursionError
   \<and> assemble_stream toy_loads [Utf8 (ascii ''data: B'')] [] = Inr (ascii ''lo'')
   \<and> assemble_stream toy_loads
       [Utf8 (ascii ''data: N''), Utf8 (ascii ''data: B'')] [] = Inl TypeError"
proof -
  have deep: "data_payload (Utf8 (ascii ''data: '' @ deep_payload)) = Some deep_payload"
    by (simp add: data_payload_def ascii_def)
  have nospace: "py_strip deep_payload = deep_payload"
    by (rule strip_no_space) (simp add: deep_payload_def py_isspace_def)
  have notdone: "deep_payload \<noteq> ascii ''[DONE]''"
    by (rule length_neq) (simp add: deep_payload_def ascii_def)
  have n: "data_payload (Utf8 (ascii ''data: N'')) = Some (ascii ''N'')"
    "py_strip (ascii ''N'') \<noteq> ascii ''[DONE]''"
    by (simp_all add: data_payload_def ascii_def py_strip_def py_isspace_def)
  have nc: "py_bind (delta_content null_chunk) (str_add []) = Inl TypeError"
    by (simp add: delta_content_def null_chunk_def ascii_def)
  have s1: "\<not> is_sentinel (Utf8 (ascii ''data: '' @ deep_payload))"
    "line_fault toy_loads (Utf8 (ascii ''data: '' @ deep_payload)) = Some RecursionError"
    by (simp_all add: is_sentinel_def line_fault_def deep nospace notdone toy_loads_values)
  have s2: "\<not> is_sentinel (Utf8 (ascii ''data: B''))"
    "line_fault toy_loads (Utf8 (ascii ''data: B'')) = None"
    "frame_fragment toy_loads (Utf8 (ascii ''data: B'')) = Some (ascii ''lo'')"
    by (simp_all add: is_sentinel_def line_fault_def frame_fragment_def toy_lines strip_examples
          toy_loads_values delta_content_chunk_with)
  have s3: "\<not> is_sentinel (Utf8 (ascii ''data: N''))"
    "line_fault toy_loads (Utf8 (ascii ''data: N'')) = Some TypeError"
    by (simp_all add: is_sentinel_def line_fault_def n toy_loads_values nc)
  show ?thesis
    by (simp only: assemble_stream_step assemble_stream.simps(1) s1 s2 s3 if_False option.case
          append_Nil simp_thms)
qed

text \<open>
  Claim C10. \<open>supervise_answer\<close> returns true exactly when the supervision service
  answers with a response that passes \<open>raise_for_status\<close>, whose body is JSON, and in
  which the text of the first choice is a string containing the two characters
  U+7B26 U+5408. A response whose text is the literal \<open>true\<close> that the prompt asks
  for is therefore rejected, and so is every call that raises, every error status,
  every body that is not JSON and every body of another shape.
\<close>

theorem supervise_answer_verdict:
  "(fst (sup_supervise_answer v w h um ans) \<longleftrightarrow>
      (\<exists>ls j t. completions_api w h (supervision_request v um ans) = Response ls (Some j)
                \<and> choice_text_value j = Inr (JStr t) \<and> sublist keyword_conforms t))
   \<and> (completions_api w h (supervision_request v um ans) = Response ls (Some j)
        \<and> choice_text_value j = Inr (JStr (ascii ''true''))
      \<longrightarrow> \<not> fst (sup_supervise_answer v w h um ans))
   \<and> (reply_json (completions_api w h (supervision_request v um ans)) = Inl e
      \<longrightarrow> \<not> fst (sup_supervise_answer v w h um ans))
   \<and> (completions_api w h (supervision_request v um ans) = Response ls (Some j)
        \<and> choice_text j = Inl e
      \<longrightarrow> \<not> fst (sup_supervise_answer v w h um ans))"
proof -
  let ?r = "completions_api w h (supervision_request v um ans)"
  have iff: "fst (sup_supervise_answer v w h um ans) \<longleftrightarrow>
      (\<exists>ls j t. ?r = Response ls (Some j)
                \<and> choice_text_value j = Inr (JStr t) \<and> sublist keyword_conforms t)"
    unfolding supervise_answer_fst choice_text_def
    by (auto simp: py_bind_Inr reply_json_Inr py_strip_value_Inr conforms_in_strip)
  have no_true: "\<not> sublist keyword_conforms (ascii ''true'')"
    by (simp add: keyword_conforms_def ascii_def sublist_Cons_right)
  have a: "?r = Response ls (Some j) \<and> choice_text_value j = Inr (JStr (ascii ''true''))
      \<longrightarrow> \<not> fst (sup_supervise_answer v w h um ans)"
    unfolding iff using no_true by auto
  have b: "reply_json ?r = Inl e \<longrightarrow> \<not> fst (sup_supervise_answer v w h um ans)"
    unfolding supervise_answer_fst by auto
  have c: "?r = Response ls (Some j) \<and> choice_text j = Inl e
      \<longrightarrow> \<not> fst (sup_supervise_answer v w h um ans)"
    unfolding supervise_answer_fst by auto
  show ?thesis using iff a b c by (intro conjI)
qed

theorem supervise_answer_verdict_witness:
  "fst (sup_supervise_answer example_valves
          (silent_world\<lparr>completions_api := (\<lambda>h req. completion_with ([32] @ keyword_conforms @ [10]))\<rparr>)
          [] (ascii ''q'') (ascii ''a''))
   \<and> \<not> fst (sup_supervise_answer example_valves
          (silent_world\<lparr>completions_api := (\<lambda>h req. completion_with (ascii ''true''))\<rparr>)
          [] (ascii ''q'') (ascii ''a''))
   \<and> \<not> fst (sup_supervise_answer example_valves silent_world [] (ascii ''q'') (ascii ''a''))
   \<and> \<not> fst (sup_supervise_answer example_valves
          (silent_world\<lparr>completions_api := (\<lambda>h req. Response [] (Some (JArr [])))\<rparr>)
          [] (ascii ''q'') (ascii ''a''))"
proof -
  let ?q = "ascii ''q''" and ?a = "ascii ''a''"
  let ?w1 = "silent_world\<lparr>completions_api := (\<lambda>h req. completion_with ([32] @ keyword_conforms @ [10]))\<rparr>"
  let ?w2 = "silent_world\<lparr>completions_api := (\<lambda>h req. completion_with (ascii ''true''))\<rparr>"
  let ?w4 = "silent_world\<lparr>completions_api := (\<lambda>h req. Response [] (Some (JArr [])))\<rparr>"
  have ctv: "\<And>t. choice_text_value (JObj [(ascii ''choices'', JArr [JObj [(ascii ''text'', JStr t)]])])
               = Inr (JStr t)"
    by (simp add: choice_text_value_def ascii_def)
  have 1: "fst (sup_supervise_answer example_valves ?w1 [] ?q ?a)"
    using supervise_answer_verdict [of example_valves ?w1 "[]" ?q ?a, THEN conjunct1]
    by (simp add: completion_with_def ctv sublist_Cons_right keyword_conforms_def)
  have 2: "\<not> fst (sup_supervise_answer example_valves ?w2 [] ?q ?a)"
    using supervise_answer_verdict [of example_valves ?w2 "[]" ?q ?a "[]"
        "JObj [(ascii ''choices'', JArr [JObj [(ascii ''text'', JStr (ascii ''true''))]])]",
        THEN conjunct2, THEN conjunct1]
    by (simp add: completion_with_def ctv)
  have 3: "\<not> fst (sup_supervise_answer example_valves silent_world [] ?q ?a)"
    using supervise_answer_verdict [of example_valves silent_world "[]" ?q ?a _ _ ConnectionError,
        THEN conjunct2, THEN conjunct2, THEN conjunct1]
    by (simp add: silent_world_def)
  have 4: "\<not> fst (sup_supervise_answer example_valves ?w4 [] ?q ?a)"
    using supervise_answer_verdict [of example_valves ?w4 "[]" ?q ?a "[]" "JArr []" AttributeError,
        THEN conjunct2, THEN conjunct2, THEN conjunct2]
    by (simp add: choice_text_def choice_text_value_def)
  show ?thesis using 1 2 3 4 by (intro conjI)
qed

end
